theory Spec2Isabelle
  imports Complex_Main "HOL-Library.AList" "HOL-Library.Multiset"
begin

unbundle bit_operations_syntax

section \<open>Python values\<close>

text \<open>
  The library passes dynamically typed values around: decoded JSON bodies, keyword
  arguments, request payloads. They are modelled by one datatype. A number is a Python
  \<^verbatim>\<open>int\<close> or a finite \<^verbatim>\<open>float\<close>, kept by its exact value; a dictionary is
  an association list in insertion order with string keys; \<open>PFile\<close> is an instance of
  the library's \<^verbatim>\<open>File\<close> class, of which the source reads \<^verbatim>\<open>filename\<close>
  and \<^verbatim>\<open>fp.read()\<close> (the field \<open>fp\<close> holds what that call gives).
\<close>

record File =
  filename :: string
  fp :: string

datatype pyv =
    PNone
  | PBool bool
  | PNum rat
  | PStr string
  | PList "pyv list"
  | PDict "(string \<times> pyv) list"
  | PFile File

text \<open>Python truthiness, as \<^verbatim>\<open>if x:\<close> tests it.\<close>

fun truthy :: "pyv \<Rightarrow> bool" where
  "truthy PNone = False"
| "truthy (PBool b) = b"
| "truthy (PNum q) = (q \<noteq> 0)"
| "truthy (PStr s) = (s \<noteq> [])"
| "truthy (PList xs) = (xs \<noteq> [])"
| "truthy (PDict kvs) = (kvs \<noteq> [])"
| "truthy (PFile f) = True"

text \<open>\<^verbatim>\<open>isinstance(x, str)\<close>.\<close>

fun is_str :: "pyv \<Rightarrow> bool" where
  "is_str (PStr s) = True"
| "is_str v = False"

section \<open>Responses and errors\<close>

text \<open>
  An \<^verbatim>\<open>aiohttp.ClientResponse\<close> as the library reads it: the status, the headers
  (looked up by the names the source uses; the first entry of a name is the one
  \<^verbatim>\<open>headers[...]\<close> and \<^verbatim>\<open>headers.get(...)\<close> return), the body text, and what
  \<^verbatim>\<open>_json.loads\<close> makes of that text (\<open>None\<close> where it raises).
\<close>

record response =
  status :: int
  headers :: "(string \<times> string) list"
  text_of :: string
  loads :: "pyv option"

text \<open>Messages of the two \<^verbatim>\<open>TypeError\<close>s of flags.py, and of those Python itself raises.\<close>

datatype type_error_msg =
    NotAValidFlagName string
  | MustBeABool string
  | BadSubscript
  | BadSleepDelay
  | NotSerializable

text \<open>
  The exceptions that reach a caller. \<open>HTTPException\<close>, \<open>Forbidden\<close>, \<open>NotFound\<close> and
  \<open>RevoltServerError\<close> are built from the failing response and the decoded body;
  \<open>LoginFailure\<close> carries its message and its cause (\<^verbatim>\<open>raise ... from exc\<close>);
  \<open>OSError\<close> carries \<^verbatim>\<open>errno\<close>.
\<close>

datatype error =
    HTTPException response pyv
  | Forbidden response pyv
  | NotFound response pyv
  | RevoltServerError response pyv
  | LoginFailure string error
  | OSError "int option"
  | TypeError type_error_msg
  | KeyError string
  | ValueError
  | AttributeError
  | JSONDecodeError
  | RuntimeError string

section \<open>models/flags.py\<close>

text \<open>
  An attribute of a class body is a \<^verbatim>\<open>flag_value\<close> descriptor, holding the integer
  its function returns (\<^verbatim>\<open>self.flag = func(None)\<close>), or anything else.
\<close>

datatype attr = flag_value int | other_attr

text \<open>
  A flag-set class after the decorator: its name, its \<^verbatim>\<open>__dict__\<close> in insertion
  order, \<^verbatim>\<open>VALID_FLAGS\<close> and \<^verbatim>\<open>DEFAULT_VALUE\<close>.
\<close>

record flags_class =
  cls_name :: string
  cls_dict :: "(string \<times> attr) list"
  VALID_FLAGS :: "(string \<times> int) list"
  DEFAULT_VALUE :: int

text \<open>\<^verbatim>\<open>int.bit_length()\<close>: the number of bits of the absolute value.\<close>

fun nat_bit_length :: "nat \<Rightarrow> nat" where
  "nat_bit_length n = (if n = 0 then 0 else Suc (nat_bit_length (n div 2)))"

declare nat_bit_length.simps [simp del]

definition bit_length :: "int \<Rightarrow> nat" where
  "bit_length x = nat_bit_length (nat \<bar>x\<bar>)"

text \<open>The dictionary comprehension of \<^verbatim>\<open>fill_with_flags\<close>.\<close>

fun collect_flags :: "(string \<times> attr) list \<Rightarrow> (string \<times> int) list" where
  "collect_flags [] = []"
| "collect_flags ((name, flag_value f) # rest) = (name, f) # collect_flags rest"
| "collect_flags ((name, other_attr) # rest) = collect_flags rest"

text \<open>
  \<^verbatim>\<open>fill_with_flags(inverted=...)\<close> applied to a class with the given name and body.
  \<^verbatim>\<open>max\<close> of no values raises \<^verbatim>\<open>ValueError\<close>.
\<close>

definition fill_with_flags :: "bool \<Rightarrow> string \<Rightarrow> (string \<times> attr) list \<Rightarrow> error + flags_class" where
  "fill_with_flags inverted name body =
     (let valid = collect_flags body in
      if inverted then
        (if valid = [] then Inl ValueError
         else
           let max_bits = bit_length (Max (set (map snd valid))) in
           Inr \<lparr>cls_name = name, cls_dict = body, VALID_FLAGS = valid,
                DEFAULT_VALUE = - 1 + 2 ^ max_bits\<rparr>)
      else
        Inr \<lparr>cls_name = name, cls_dict = body, VALID_FLAGS = valid, DEFAULT_VALUE = 0\<rparr>)"

text \<open>An instance: its class and the backing integer \<^verbatim>\<open>self.value\<close>.\<close>

record flags =
  cls :: flags_class
  flags_value :: int

definition from_value :: "flags_class \<Rightarrow> int \<Rightarrow> flags" where
  "from_value c v = \<lparr>cls = c, flags_value = v\<rparr>"

definition has_flag :: "flags \<Rightarrow> int \<Rightarrow> bool" where
  "has_flag self o' = ((flags_value self AND o') = o')"

definition set_flag :: "flags \<Rightarrow> int \<Rightarrow> pyv \<Rightarrow> error + flags" where
  "set_flag self o' toggle =
     (if toggle = PBool True then Inr (self\<lparr>flags_value := flags_value self OR o'\<rparr>)
      else if toggle = PBool False then Inr (self\<lparr>flags_value := flags_value self AND NOT o'\<rparr>)
      else Inl (TypeError (MustBeABool (cls_name (cls self)))))"

text \<open>
  Reading and writing a declared name goes through its descriptor:
  \<^verbatim>\<open>__get__\<close> calls \<^verbatim>\<open>_has_flag(self.flag)\<close>, \<^verbatim>\<open>__set__\<close> calls
  \<^verbatim>\<open>_set_flag(self.flag, value)\<close>. The functions are used on declared names only.
\<close>

definition flag_of :: "flags_class \<Rightarrow> string \<Rightarrow> int option" where
  "flag_of c name = map_of (collect_flags (cls_dict c)) name"

definition get_flag :: "flags \<Rightarrow> string \<Rightarrow> bool option" where
  "get_flag self name = map_option (has_flag self) (flag_of (cls self) name)"

definition setattr_flag :: "flags \<Rightarrow> string \<Rightarrow> pyv \<Rightarrow> error + flags" where
  "setattr_flag self name v =
     (case flag_of (cls self) name of
        Some f \<Rightarrow> set_flag self f v
      | None \<Rightarrow> Inr self)"

text \<open>The loop of \<^verbatim>\<open>BaseFlags.__init__\<close> over the keyword arguments, in their order.\<close>

fun init_loop :: "flags \<Rightarrow> (string \<times> pyv) list \<Rightarrow> error + flags" where
  "init_loop self [] = Inr self"
| "init_loop self ((key, v) # kwargs) =
     (if map_of (VALID_FLAGS (cls self)) key = None
      then Inl (TypeError (NotAValidFlagName key))
      else (case setattr_flag self key v of
              Inl e \<Rightarrow> Inl e
            | Inr self' \<Rightarrow> init_loop self' kwargs))"

definition BaseFlags_init :: "flags_class \<Rightarrow> (string \<times> pyv) list \<Rightarrow> error + flags" where
  "BaseFlags_init c kwargs = init_loop \<lparr>cls = c, flags_value = DEFAULT_VALUE c\<rparr> kwargs"

text \<open>\<^verbatim>\<open>__eq__\<close>: the same class and the same backing integer.\<close>

definition flags_eq :: "flags \<Rightarrow> flags \<Rightarrow> bool" where
  "flags_eq self other = (cls other = cls self \<and> flags_value self = flags_value other)"

text \<open>\<^verbatim>\<open>__iter__\<close>: every descriptor of the class dictionary, in its order.\<close>

definition flags_iter :: "flags \<Rightarrow> (string \<times> bool) list" where
  "flags_iter self = map (\<lambda>(name, f). (name, has_flag self f)) (collect_flags (cls_dict (cls self)))"

text \<open>The body of \<^verbatim>\<open>class UserBadges\<close>: its docstring and the ten descriptors.\<close>

definition UserBadges_body :: "(string \<times> attr) list" where
  "UserBadges_body =
     [(''__doc__'', other_attr),
      (''developer'', flag_value (push_bit 0 1)),
      (''translator'', flag_value (push_bit 1 1)),
      (''supporter'', flag_value (push_bit 2 1)),
      (''responsible_disclosure'', flag_value (push_bit 3 1)),
      (''founder'', flag_value (push_bit 4 1)),
      (''platform_moderation'', flag_value (push_bit 5 1)),
      (''active_supporter'', flag_value (push_bit 6 1)),
      (''paw'', flag_value (push_bit 7 1)),
      (''early_adopter'', flag_value (push_bit 8 1)),
      (''reserved_relevant_joke_badge_1'', flag_value (push_bit 9 1))]"

definition UserBadges :: flags_class where
  "UserBadges =
     \<lparr>cls_name = ''UserBadges'', cls_dict = UserBadges_body,
      VALID_FLAGS = collect_flags UserBadges_body, DEFAULT_VALUE = 0\<rparr>"


text \<open>The Python class of an exception, by name.\<close>

definition exception_class :: "error \<Rightarrow> string" where
  "exception_class e =
     (case e of
        HTTPException r d \<Rightarrow> ''HTTPException''
      | Forbidden r d \<Rightarrow> ''Forbidden''
      | NotFound r d \<Rightarrow> ''NotFound''
      | RevoltServerError r d \<Rightarrow> ''RevoltServerError''
      | LoginFailure m c \<Rightarrow> ''LoginFailure''
      | OSError n \<Rightarrow> ''OSError''
      | TypeError m \<Rightarrow> ''TypeError''
      | KeyError k \<Rightarrow> ''KeyError''
      | ValueError \<Rightarrow> ''ValueError''
      | AttributeError \<Rightarrow> ''AttributeError''
      | JSONDecodeError \<Rightarrow> ''JSONDecodeError''
      | RuntimeError m \<Rightarrow> ''RuntimeError'')"

section \<open>http.py\<close>

subsection \<open>Python operations the source calls\<close>

text \<open>\<^verbatim>\<open>x[key]\<close> with a string key.\<close>

fun getitem :: "pyv \<Rightarrow> string \<Rightarrow> error + pyv" where
  "getitem (PDict kvs) key = (case map_of kvs key of None \<Rightarrow> Inl (KeyError key) | Some v \<Rightarrow> Inr v)"
| "getitem v key = Inl (TypeError BadSubscript)"

text \<open>\<^verbatim>\<open>x.get(key, default)\<close>; only a dictionary has the method.\<close>

fun dict_get :: "pyv \<Rightarrow> string \<Rightarrow> pyv \<Rightarrow> error + pyv" where
  "dict_get (PDict kvs) key d = (case map_of kvs key of None \<Rightarrow> Inr d | Some v \<Rightarrow> Inr v)"
| "dict_get v key d = Inl AttributeError"

text \<open>
  The delay \<^verbatim>\<open>asyncio.sleep\<close> accepts: a number, or a boolean (an \<^verbatim>\<open>int\<close> in
  Python). Any other value fails its comparison with zero, a \<^verbatim>\<open>TypeError\<close>.
\<close>

fun sleep_delay :: "pyv \<Rightarrow> rat option" where
  "sleep_delay (PNum q) = Some q"
| "sleep_delay (PBool b) = Some (if b then 1 else 0)"
| "sleep_delay v = None"

text \<open>\<^verbatim>\<open>str(x)\<close> of an optional string, as an f-string renders it.\<close>

definition str_of :: "string option \<Rightarrow> string" where
  "str_of v = (case v of None \<Rightarrow> ''None'' | Some s \<Rightarrow> s)"

subsection \<open>json\_or\_text\<close>

definition json_or_text :: "response \<Rightarrow> error + pyv" where
  "json_or_text r =
     (case map_of (headers r) ''content-type'' of
        Some ct \<Rightarrow>
          if ct = ''application/json''
          then (case loads r of None \<Rightarrow> Inl JSONDecodeError | Some j \<Rightarrow> Inr j)
          else Inr (PStr (text_of r))
      | None \<Rightarrow> Inr (PStr (text_of r)))"

subsection \<open>Route\<close>

text \<open>
  The keyword parameters of a route are snowflakes, that is strings. \<^verbatim>\<open>str.format_map\<close>
  and \<^verbatim>\<open>urllib.parse.quote\<close> are parameters of the model: the first may raise
  (a placeholder without a parameter is a \<^verbatim>\<open>KeyError\<close>), and then no route is built.
\<close>

record route =
  path :: string
  http_method :: string
  url :: string
  channel_id :: "string option"
  server_id :: "string option"

definition BASE :: string where
  "BASE = ''https://api.revolt.chat''"

definition Route ::
  "(string \<Rightarrow> (string \<times> string) list \<Rightarrow> error + string) \<Rightarrow> (string \<Rightarrow> string)
     \<Rightarrow> string \<Rightarrow> string \<Rightarrow> (string \<times> string) list \<Rightarrow> error + route" where
  "Route format_map uriquote method' path' parameters =
     (case (if parameters \<noteq> []
            then format_map (BASE @ path') (map (\<lambda>(k, v). (k, uriquote v)) parameters)
            else Inr (BASE @ path')) of
        Inl e \<Rightarrow> Inl e
      | Inr url' \<Rightarrow>
          Inr \<lparr>path = path', http_method = method', url = url',
               channel_id = map_of parameters ''channel_id'',
               server_id = map_of parameters ''server_id''\<rparr>)"

definition bucket :: "route \<Rightarrow> string" where
  "bucket r = str_of (channel_id r) @ '':'' @ str_of (server_id r) @ '':'' @ path r"

subsection \<open>HTTPClient\<close>

text \<open>
  Modelled from the spec: token.py is not under src/. A credential holder is an immutable
  pair of a token kind (\<^verbatim>\<open>type\<close>) and a secret (\<^verbatim>\<open>value\<close>).
\<close>

record token =
  token_type :: string
  token_value :: string

text \<open>What is sent as the body of a request: nothing, \<^verbatim>\<open>_json.dumps\<close> of a value, or a
  multipart form of the given fields.\<close>

datatype body = NoBody | JsonBody pyv | FormBody "pyv list"

text \<open>
  What one call does to the world, in order: taking and releasing the lock of a bucket,
  clearing and setting the event \<^verbatim>\<open>_global_over\<close>, \<^verbatim>\<open>asyncio.sleep\<close>,
  \<^verbatim>\<open>session.request(method, url, headers, data)\<close>, and \<^verbatim>\<open>session.post\<close> to the
  URL \<^verbatim>\<open>f"{base}/{tag}"\<close> of the upload path.
\<close>

datatype event =
    Acquire string
  | Release string
  | GateClear
  | GateSet
  | Sleep rat
  | Request string string "(string \<times> string) list" body
  | Post pyv string "(string \<times> string) list" body

text \<open>
  The client: the credential, \<^verbatim>\<open>api_info\<close> (\<open>PNone\<close> before login), the user agent,
  whether \<^verbatim>\<open>_global_over\<close> is set, and the effects so far. One task is modelled: the
  lock of a bucket is free when a request starts, since every request releases it on
  its way out.
\<close>

record client =
  token :: "token option"
  api_info :: pyv
  user_agent :: string
  global_over :: bool
  trace :: "event list"

definition emit :: "event \<Rightarrow> client \<Rightarrow> client" where
  "emit ev st = st\<lparr>trace := trace st @ [ev]\<rparr>"

definition gate_clear :: "client \<Rightarrow> client" where
  "gate_clear st = emit GateClear (st\<lparr>global_over := False\<rparr>)"

definition gate_set :: "client \<Rightarrow> client" where
  "gate_set st = emit GateSet (st\<lparr>global_over := True\<rparr>)"

definition asyncio_sleep :: "pyv \<Rightarrow> client \<Rightarrow> error + client" where
  "asyncio_sleep delay st =
     (case sleep_delay delay of
        None \<Rightarrow> Inl (TypeError BadSleepDelay)
      | Some q \<Rightarrow> Inr (emit (Sleep q) st))"

text \<open>
  The outcome of a coroutine: it returns, it raises, or it never resumes (it waits on
  \<^verbatim>\<open>_global_over\<close>, which no other task is there to set).
\<close>

datatype 'a result = Returns 'a | Raises error | Blocks

text \<open>One pass of the retry loop ends the request or goes on to the next pass.\<close>

datatype step = Return pyv | Raise error | Continue

text \<open>
  The body of \<^verbatim>\<open>for tries in range(5)\<close>. The network answers the exchange with a
  response or with an exception. The third component is the pair of \<^verbatim>\<open>response\<close> and
  \<^verbatim>\<open>data\<close>, which the code after the loop reads.
\<close>

definition request_attempt ::
  "client \<Rightarrow> event \<Rightarrow> nat \<Rightarrow> (response \<times> pyv) option \<Rightarrow> error + response
     \<Rightarrow> step \<times> client \<times> (response \<times> pyv) option" where
  "request_attempt st sent tries prev outcome =
     (let st1 = emit sent st in
      case outcome of
        Inl (OSError errno) \<Rightarrow>
          if tries < 4 \<and> (errno = Some 54 \<or> errno = Some 10054)
          then (Continue, emit (Sleep (1 + of_nat tries * 2)) st1, prev)
          else (Raise (OSError errno), st1, prev)
      | Inl e \<Rightarrow> (Raise e, st1, prev)
      | Inr response \<Rightarrow>
          (case json_or_text response of
             Inl e \<Rightarrow> (Raise e, st1, prev)
           | Inr data \<Rightarrow>
               if 300 > status response \<and> status response \<ge> 200
               then (Return data, st1, Some (response, data))
               else if status response = 429 then
                 (if map_of (headers response) ''Via'' = None
                     \<or> map_of (headers response) ''Via'' = Some []
                     \<or> is_str data
                  then (Raise (HTTPException response data), st1, Some (response, data))
                  else
                    (case getitem data ''retry_after'' of
                       Inl e \<Rightarrow> (Raise e, st1, Some (response, data))
                     | Inr retry_after \<Rightarrow>
                        (case dict_get data ''global'' (PBool False) of
                           Inl e \<Rightarrow> (Raise e, st1, Some (response, data))
                         | Inr is_global \<Rightarrow>
                            let st2 = (if truthy is_global then gate_clear st1 else st1) in
                            (case asyncio_sleep retry_after st2 of
                               Inl e \<Rightarrow> (Raise e, st2, Some (response, data))
                             | Inr st3 \<Rightarrow>
                                (Continue, (if truthy is_global then gate_set st3 else st3),
                                 Some (response, data))))))
               else if status response \<in> {500, 502, 504}
               then (Continue, emit (Sleep (1 + of_nat tries * 2)) st1, Some (response, data))
               else if status response = 403
               then (Raise (Forbidden response data), st1, Some (response, data))
               else if status response = 404
               then (Raise (NotFound response data), st1, Some (response, data))
               else if status response \<ge> 500
               then (Raise (RevoltServerError response data), st1, Some (response, data))
               else (Raise (HTTPException response data), st1, Some (response, data))))"

text \<open>The loop over the given values of \<^verbatim>\<open>tries\<close>, and the code after it.\<close>

fun request_loop ::
  "client \<Rightarrow> event \<Rightarrow> (nat \<Rightarrow> error + response) \<Rightarrow> (response \<times> pyv) option \<Rightarrow> nat list
     \<Rightarrow> pyv result \<times> client" where
  "request_loop st sent net prev [] =
     (case prev of
        Some (response, data) \<Rightarrow>
          if status response \<ge> 500
          then (Raises (RevoltServerError response data), st)
          else (Raises (HTTPException response data), st)
      | None \<Rightarrow> (Raises (RuntimeError ''Unreachable code in HTTP handling''), st))"
| "request_loop st sent net prev (tries # rest) =
     (case request_attempt st sent tries prev (net tries) of
        (Return data, st', prev') \<Rightarrow> (Returns data, st')
      | (Raise e, st', prev') \<Rightarrow> (Raises e, st')
      | (Continue, st', prev') \<Rightarrow> request_loop st' sent net prev' rest)"

text \<open>\<^verbatim>\<open>_json.dumps\<close> raises a \<^verbatim>\<open>TypeError\<close> on a value that holds a \<^verbatim>\<open>File\<close>.\<close>

fun serializable :: "pyv \<Rightarrow> bool" where
  "serializable (PFile f) = False"
| "serializable (PList xs) = (\<forall>x \<in> set xs. serializable x)"
| "serializable (PDict kvs) = (\<forall>kv \<in> set kvs. serializable (snd kv))"
| "serializable v = True"

text \<open>
  \<^verbatim>\<open>HTTPClient.request\<close> with the keyword \<^verbatim>\<open>json\<close> given or not, the only keyword
  its callers pass. \<open>net tries\<close> is what the network answers to the exchange of
  iteration \<open>tries\<close>.
\<close>

definition request ::
  "client \<Rightarrow> route \<Rightarrow> pyv list option \<Rightarrow> pyv option \<Rightarrow> (nat \<Rightarrow> error + response)
     \<Rightarrow> pyv result \<times> client" where
  "request st route' form json net =
     (let headers0 = [(''User-Agent'', user_agent st)];
          headers1 = (case token st of
                        None \<Rightarrow> headers0
                      | Some t \<Rightarrow>
                          AList.update (''x-'' @ token_type t @ ''-token'') (token_value t) headers0);
          headers2 = (if json \<noteq> None
                      then AList.update ''Content-Type'' ''application/json'' headers1
                      else headers1);
          data = (case form of
                    Some (f # fs) \<Rightarrow> FormBody (f # fs)
                  | _ \<Rightarrow> (case json of Some j \<Rightarrow> JsonBody j | None \<Rightarrow> NoBody))
      in
      if (case json of Some j \<Rightarrow> \<not> serializable j | None \<Rightarrow> False)
      then (Raises (TypeError NotSerializable), st)
      else if \<not> global_over st then (Blocks, st)
      else
        (case request_loop (emit (Acquire (bucket route')) st)
                (Request (http_method route') (url route') headers2 data) net None [0..<5] of
           (res, st') \<Rightarrow> (res, emit (Release (bucket route')) st')))"

text \<open>\<^verbatim>\<open>HTTPClient.upload_file\<close>; \<open>outcome\<close> is what the network answers to the post.\<close>

definition upload_file ::
  "client \<Rightarrow> File \<Rightarrow> string \<Rightarrow> error + response \<Rightarrow> pyv result \<times> client" where
  "upload_file st file' tag outcome =
     (case getitem (api_info st) ''features'' of
        Inl e \<Rightarrow> (Raises e, st)
      | Inr features \<Rightarrow>
     (case getitem features ''autumn'' of
        Inl e \<Rightarrow> (Raises e, st)
      | Inr autumn \<Rightarrow>
     (case getitem autumn ''url'' of
        Inl e \<Rightarrow> (Raises e, st)
      | Inr base \<Rightarrow>
          let form = FormBody [PDict [(''name'', PStr ''file''), (''value'', PStr (fp file')),
                                      (''filename'', PStr (filename file'))]];
              st1 = emit (Post base tag [(''User-Agent'', user_agent st)] form) st
          in
          (case outcome of
             Inl e \<Rightarrow> (Raises e, st1)
           | Inr response \<Rightarrow>
               (case json_or_text response of
                  Inl e \<Rightarrow> (Raises e, st1)
                | Inr data \<Rightarrow>
                    if status response = 400
                    then (Raises (HTTPException response data), st1)
                    else if 500 \<le> status response \<and> status response \<le> 600
                    then (Raises (RevoltServerError response data), st1)
                    else (Returns data, st1))))))"

text \<open>
  Modelled from the spec: errors.py is not under src/. \<open>HTTPException\<close> is the base kind
  of the errors built from a failing response, \<open>Forbidden\<close>, \<open>NotFound\<close> and
  \<open>RevoltServerError\<close> inherit from it, and each carries the status of its response.
  \<open>exc_status\<close> is \<^verbatim>\<open>exc.status\<close> where \<^verbatim>\<open>exc\<close> is an instance of
  \<open>HTTPException\<close>, and \<open>None\<close> where it is not.
\<close>

fun exc_status :: "error \<Rightarrow> int option" where
  "exc_status (HTTPException r d) = Some (status r)"
| "exc_status (Forbidden r d) = Some (status r)"
| "exc_status (NotFound r d) = Some (status r)"
| "exc_status (RevoltServerError r d) = Some (status r)"
| "exc_status e = None"

text \<open>\<^verbatim>\<open>HTTPClient.get_api_info\<close>.\<close>

definition get_api_info ::
  "client \<Rightarrow> (string \<Rightarrow> (string \<times> string) list \<Rightarrow> error + string) \<Rightarrow> (string \<Rightarrow> string)
     \<Rightarrow> (nat \<Rightarrow> error + response) \<Rightarrow> pyv result \<times> client" where
  "get_api_info st format_map uriquote net =
     (case Route format_map uriquote ''GET'' ''/'' [] of
        Inl e \<Rightarrow> (Raises e, st)
      | Inr r \<Rightarrow> request st r None None net)"

text \<open>
  \<^verbatim>\<open>HTTPClient.static_login\<close>. \<open>net_info\<close> answers the request for the service
  metadata, \<open>net_me\<close> the request that validates the credential. Opening the
  session, the first statement, is not part of the model.
\<close>

definition static_login ::
  "client \<Rightarrow> (string \<Rightarrow> (string \<times> string) list \<Rightarrow> error + string) \<Rightarrow> (string \<Rightarrow> string)
     \<Rightarrow> token \<Rightarrow> (nat \<Rightarrow> error + response) \<Rightarrow> (nat \<Rightarrow> error + response)
     \<Rightarrow> pyv result \<times> client" where
  "static_login st format_map uriquote token' net_info net_me =
     (case get_api_info st format_map uriquote net_info of
        (Returns info, st1) \<Rightarrow>
          (let old_token = token st1;
               st2 = st1\<lparr>api_info := info, token := Some token'\<rparr>
           in
           case Route format_map uriquote ''GET'' ''/users/@me'' [] of
             Inl e \<Rightarrow> (Raises e, st2)
           | Inr r \<Rightarrow>
               (case request st2 r None None net_me of
                  (Raises exc, st3) \<Rightarrow>
                    (case exc_status exc of
                       Some s \<Rightarrow>
                         let st4 = st3\<lparr>token := old_token\<rparr> in
                         if s = 401
                         then (Raises (LoginFailure ''Improper token has been passed.'' exc), st4)
                         else (Raises exc, st4)
                     | None \<Rightarrow> (Raises exc, st3))
                | (Returns data, st3) \<Rightarrow> (Returns data, st3)
                | (Blocks, st3) \<Rightarrow> (Blocks, st3)))
      | (Raises e, st1) \<Rightarrow> (Raises e, st1)
      | (Blocks, st1) \<Rightarrow> (Blocks, st1))"

subsection \<open>send\_message\<close>

text \<open>A coroutine awaited inside another: what follows runs only if it returns.\<close>

definition await ::
  "'a result \<times> client \<Rightarrow> ('a \<Rightarrow> client \<Rightarrow> 'b result \<times> client) \<Rightarrow> 'b result \<times> client" where
  "await m f =
     (case m of
        (Returns x, st) \<Rightarrow> f x st
      | (Raises e, st) \<Rightarrow> (Raises e, st)
      | (Blocks, st) \<Rightarrow> (Blocks, st))"

text \<open>
  The loop over \<^verbatim>\<open>attachments\<close>: each file is uploaded and the \<^verbatim>\<open>id\<close> of the decoded
  answer appended. \<open>upnet i\<close> is what the network answers to upload number \<open>i\<close> of the
  call.
\<close>

fun upload_each ::
  "client \<Rightarrow> File list \<Rightarrow> (nat \<Rightarrow> error + response) \<Rightarrow> nat \<Rightarrow> pyv list
     \<Rightarrow> pyv list result \<times> client" where
  "upload_each st [] upnet i attachment_ids = (Returns attachment_ids, st)"
| "upload_each st (f # fs) upnet i attachment_ids =
     await (upload_file st f ''attachments'' (upnet i))
       (\<lambda>data st1.
          case getitem data ''id'' of
            Inl e \<Rightarrow> (Raises e, st1)
          | Inr ident \<Rightarrow> upload_each st1 fs upnet (Suc i) (attachment_ids @ [ident]))"

text \<open>
  The payload \<^verbatim>\<open>send_message\<close> builds before it calls \<^verbatim>\<open>request\<close>, block by
  block of the source. The JSON-like arguments are Python values (\<open>PNone\<close> for an
  argument left out); \<^verbatim>\<open>attachment\<close> and \<^verbatim>\<open>attachments\<close> are a file and a list of
  files, or \<open>None\<close>.
\<close>

text \<open>\<^verbatim>\<open>if content:\<close>, \<^verbatim>\<open>if embed:\<close>, \<^verbatim>\<open>if embeds:\<close>, on the empty payload.\<close>

definition payload_content_embeds :: "pyv \<Rightarrow> pyv \<Rightarrow> pyv \<Rightarrow> (string \<times> pyv) list" where
  "payload_content_embeds content embed' embeds =
     (let p0 = [];
          p1 = (if truthy content then AList.update ''content'' content p0 else p0);
          p2 = (if truthy embed' then AList.update ''embeds'' (PList [embed']) p1 else p1)
      in if truthy embeds then AList.update ''embeds'' embeds p2 else p2)"

text \<open>\<^verbatim>\<open>if attachment:\<close>, the first upload of the call.\<close>

definition payload_attachment ::
  "client \<Rightarrow> (string \<times> pyv) list \<Rightarrow> File option \<Rightarrow> (nat \<Rightarrow> error + response)
     \<Rightarrow> (string \<times> pyv) list result \<times> client" where
  "payload_attachment st payload attachment upnet =
     (case attachment of
        None \<Rightarrow> (Returns payload, st)
      | Some f \<Rightarrow>
          await (upload_file st f ''attachments'' (upnet 0))
            (\<lambda>data st1.
               case getitem data ''id'' of
                 Inl e \<Rightarrow> (Raises e, st1)
               | Inr ident \<Rightarrow> (Returns (AList.update ''attachments'' (PList [ident]) payload), st1)))"

text \<open>\<^verbatim>\<open>if attachments:\<close>, uploads that follow the one of \<^verbatim>\<open>attachment\<close> if there was one.\<close>

definition payload_attachments ::
  "client \<Rightarrow> (string \<times> pyv) list \<Rightarrow> File option \<Rightarrow> File list option
     \<Rightarrow> (nat \<Rightarrow> error + response) \<Rightarrow> (string \<times> pyv) list result \<times> client" where
  "payload_attachments st payload attachment attachments upnet =
     (case attachments of
        Some (f # fs) \<Rightarrow>
          await (upload_each st (f # fs) upnet (case attachment of None \<Rightarrow> 0 | Some f' \<Rightarrow> 1) [])
            (\<lambda>attachment_ids st1.
               (Returns (AList.update ''attachments'' (PList attachment_ids) payload), st1))
      | _ \<Rightarrow> (Returns payload, st))"

text \<open>\<^verbatim>\<open>if replie:\<close>, \<^verbatim>\<open>if replies:\<close>, \<^verbatim>\<open>if masquerade:\<close>.\<close>

definition payload_replies_masquerade ::
  "(string \<times> pyv) list \<Rightarrow> pyv \<Rightarrow> pyv \<Rightarrow> pyv \<Rightarrow> (string \<times> pyv) list" where
  "payload_replies_masquerade payload replie replies masquerade =
     (let p1 = (if truthy replie then AList.update ''replies'' (PList [replie]) payload else payload);
          p2 = (if truthy replies then AList.update ''replies'' replies p1 else p1)
      in if truthy masquerade then AList.update ''masquerade'' masquerade p2 else p2)"

definition send_message_payload ::
  "client \<Rightarrow> pyv \<Rightarrow> pyv \<Rightarrow> pyv \<Rightarrow> File option \<Rightarrow> File list option \<Rightarrow> pyv \<Rightarrow> pyv \<Rightarrow> pyv
     \<Rightarrow> (nat \<Rightarrow> error + response) \<Rightarrow> (string \<times> pyv) list result \<times> client" where
  "send_message_payload st content embed' embeds attachment attachments replie replies
       masquerade upnet =
     await (payload_attachment st (payload_content_embeds content embed' embeds) attachment upnet)
       (\<lambda>p1 st1.
          await (payload_attachments st1 p1 attachment attachments upnet)
            (\<lambda>p2 st2. (Returns (payload_replies_masquerade p2 replie replies masquerade), st2)))"

definition send_message ::
  "client \<Rightarrow> (string \<Rightarrow> (string \<times> string) list \<Rightarrow> error + string) \<Rightarrow> (string \<Rightarrow> string)
     \<Rightarrow> string \<Rightarrow> pyv \<Rightarrow> pyv \<Rightarrow> pyv \<Rightarrow> File option \<Rightarrow> File list option \<Rightarrow> pyv \<Rightarrow> pyv \<Rightarrow> pyv
     \<Rightarrow> (nat \<Rightarrow> error + response) \<Rightarrow> (nat \<Rightarrow> error + response) \<Rightarrow> pyv result \<times> client" where
  "send_message st format_map uriquote channel content embed' embeds attachment attachments
       replie replies masquerade upnet net =
     (case Route format_map uriquote ''POST'' ''/channels/{channel_id}/messages''
             [(''channel_id'', channel)] of
        Inl e \<Rightarrow> (Raises e, st)
      | Inr r \<Rightarrow>
          await (send_message_payload st content embed' embeds attachment attachments replie
                   replies masquerade upnet)
            (\<lambda>payload st1. request st1 r None (Some (PDict payload)) net))"

section \<open>Notions used in the statements\<close>

text \<open>
  The declared flags of a class keep apart when none is zero and no two names share
  a bit, as with one bit position a name.
\<close>

definition separate_bits :: "flags_class \<Rightarrow> bool" where
  "separate_bits c =
     (\<forall>(n, f) \<in> set (collect_flags (cls_dict c)).
        f \<noteq> 0 \<and> (\<forall>(m, g) \<in> set (collect_flags (cls_dict c)). n \<noteq> m \<longrightarrow> f AND g = 0))"

text \<open>What one accepted keyword of \<^verbatim>\<open>__init__\<close> does to the backing integer.\<close>

definition apply_kw :: "flags_class \<Rightarrow> string \<times> pyv \<Rightarrow> int \<Rightarrow> int" where
  "apply_kw c kv x =
     (case flag_of c (fst kv) of
        None \<Rightarrow> x
      | Some f \<Rightarrow> if snd kv = PBool True then x OR f else x AND NOT f)"

text \<open>A keyword \<^verbatim>\<open>__init__\<close> accepts: a valid name, with a boolean where it is a descriptor.\<close>

definition good_kw :: "flags_class \<Rightarrow> string \<times> pyv \<Rightarrow> bool" where
  "good_kw c kv \<longleftrightarrow>
     map_of (VALID_FLAGS c) (fst kv) \<noteq> None
     \<and> (flag_of c (fst kv) \<noteq> None \<longrightarrow> (snd kv = PBool True \<or> snd kv = PBool False))"

text \<open>
  The \<^verbatim>\<open>id\<close> that the upload of a file yields under a given answer of the network:
  \<^verbatim>\<open>data["id"]\<close> of what \<^verbatim>\<open>upload_file\<close> returns, if it returns and has one.
\<close>

definition upload_id :: "client \<Rightarrow> File \<Rightarrow> error + response \<Rightarrow> pyv option" where
  "upload_id st f outcome =
     (case fst (upload_file st f ''attachments'' outcome) of
        Returns data \<Rightarrow> (case getitem data ''id'' of Inr v \<Rightarrow> Some v | Inl e \<Rightarrow> None)
      | _ \<Rightarrow> None)"

section \<open>Inputs used in the examples\<close>

definition client0 :: client where
  "client0 = \<lparr>token = None, api_info = PNone, user_agent = ''Pyvolt'', global_over = True, trace = []\<rparr>"

definition root_route :: route where
  "root_route = \<lparr>path = ''/'', http_method = ''GET'', url = ''https://api.revolt.chat/'',
                  channel_id = None, server_id = None\<rparr>"

definition bad_gateway :: response where
  "bad_gateway = \<lparr>status = 502, headers = [], text_of = ''Bad Gateway'', loads = None\<rparr>"

text \<open>A network that gives the same response to every exchange.\<close>

definition always :: "response \<Rightarrow> nat \<Rightarrow> error + response" where
  "always r tries = Inr r"

text \<open>A stand-in for \<^verbatim>\<open>str.format_map\<close> that gives the URL named.\<close>

definition answer :: "string \<Rightarrow> string \<Rightarrow> (string \<times> string) list \<Rightarrow> error + string" where
  "answer u s ps = Inr u"


text \<open>The service metadata with the address of the file host, and a client that holds it.\<close>

definition autumn_info :: pyv where
  "autumn_info =
     PDict [(''features'', PDict [(''autumn'', PDict [(''url'', PStr ''https://autumn.revolt.chat'')])])]"

definition client1 :: client where
  "client1 = \<lparr>token = None, api_info = autumn_info, user_agent = ''Pyvolt'', global_over = True, trace = []\<rparr>"

definition picture :: File where
  "picture = \<lparr>filename = ''cat.png'', fp = ''PNG''\<rparr>"

text \<open>Responses.\<close>

definition ok_untyped :: response where
  "ok_untyped = \<lparr>status = 200, headers = [], text_of = ''{}'', loads = Some (PDict [])\<rparr>"

definition ok_json :: "pyv \<Rightarrow> response" where
  "ok_json j = \<lparr>status = 200, headers = [(''content-type'', ''application/json'')], text_of = [], loads = Some j\<rparr>"

definition empty_via_429 :: response where
  "empty_via_429 =
     \<lparr>status = 429, headers = [(''content-type'', ''application/json''), (''Via'', [])],
      text_of = [], loads = Some (PDict [(''retry_after'', PNum 1)])\<rparr>"

definition global_429 :: response where
  "global_429 =
     \<lparr>status = 429, headers = [(''content-type'', ''application/json''), (''Via'', ''1.1 proxy'')],
      text_of = [],
      loads = Some (PDict [(''retry_after'', PNum (1 / 100)), (''global'', PBool True)])\<rparr>"

definition blocked_429 :: response where
  "blocked_429 = \<lparr>status = 429, headers = [], text_of = ''error code: 1015'', loads = None\<rparr>"

text \<open>A response announced as JSON whose body does not parse.\<close>

definition garbled :: "int \<Rightarrow> response" where
  "garbled s = \<lparr>status = s, headers = [(''content-type'', ''application/json'')],
                 text_of = ''<html>'', loads = None\<rparr>"

definition bad_request :: response where
  "bad_request = \<lparr>status = 400, headers = [], text_of = ''Bad Request'', loads = None\<rparr>"

definition unauthorized :: response where
  "unauthorized = \<lparr>status = 401, headers = [], text_of = ''Unauthorized'', loads = None\<rparr>"

text \<open>The exchange of a request for the root route without credential or body.\<close>

definition ping :: event where
  "ping = Request ''GET'' ''https://api.revolt.chat/'' [(''User-Agent'', ''Pyvolt'')] NoBody"

text \<open>A network on which every exchange fails with the given \<^verbatim>\<open>errno\<close>.\<close>

definition refuses :: "int option \<Rightarrow> nat \<Rightarrow> error + response" where
  "refuses errno tries = Inl (OSError errno)"

definition old_token :: token where
  "old_token = \<lparr>token_type = ''bot'', token_value = ''old''\<rparr>"

definition new_token :: token where
  "new_token = \<lparr>token_type = ''bot'', token_value = ''new''\<rparr>"

text \<open>The route of \<^verbatim>\<open>Route('GET', '/users/@me')\<close>, and that of \<^verbatim>\<open>Route('GET', '/')\<close> above.\<close>

definition users_me :: route where
  "users_me = \<lparr>path = ''/users/@me'', http_method = ''GET'',
                url = ''https://api.revolt.chat/users/@me'', channel_id = None, server_id = None\<rparr>"

text \<open>A client that holds a credential from before, and what a login with a new one does.\<close>

definition client_old :: client where
  "client_old = \<lparr>token = Some old_token, api_info = PNone, user_agent = ''Pyvolt'',
                  global_over = True, trace = []\<rparr>"

definition login_trace :: "event list" where
  "login_trace =
     [Acquire ''None:None:/'',
      Request ''GET'' ''https://api.revolt.chat/''
        [(''User-Agent'', ''Pyvolt''), (''x-bot-token'', ''old'')] NoBody,
      Release ''None:None:/'',
      Acquire ''None:None:/users/@me'',
      Request ''GET'' ''https://api.revolt.chat/users/@me''
        [(''User-Agent'', ''Pyvolt''), (''x-bot-token'', ''new'')] NoBody,
      Release ''None:None:/users/@me'']"

text \<open>
  The file host answering the first upload with the id \<open>a1\<close> and the later ones with
  \<open>a2\<close>; a second file, two embeds and two replies.
\<close>

definition uploads :: "nat \<Rightarrow> error + response" where
  "uploads i = Inr (ok_json (PDict [(''id'', PStr (if i = 0 then ''a1'' else ''a2''))]))"

definition drawing :: File where
  "drawing = \<lparr>filename = ''dog.png'', fp = ''GNP''\<rparr>"

definition embed1 :: pyv where
  "embed1 = PDict [(''title'', PStr ''one'')]"

definition embed2 :: pyv where
  "embed2 = PDict [(''title'', PStr ''two'')]"

definition reply1 :: pyv where
  "reply1 = PDict [(''id'', PStr ''m1''), (''mention'', PBool False)]"

definition reply2 :: pyv where
  "reply2 = PDict [(''id'', PStr ''m2''), (''mention'', PBool True)]"

text \<open>The route of \<^verbatim>\<open>send_message\<close> for the channel \<open>c1\<close>.\<close>

definition messages_route :: route where
  "messages_route =
     \<lparr>path = ''/channels/{channel_id}/messages'', http_method = ''POST'',
      url = ''https://api.revolt.chat/channels/c1/messages'', channel_id = Some ''c1'',
      server_id = None\<rparr>"

text \<open>
  A flag set with a flag of two bits, written against \<^verbatim>\<open>BaseFlags\<close> as
  \<open>UserBadges\<close> is: \<^verbatim>\<open>read\<close> returns \<^verbatim>\<open>1 << 0\<close>, \<^verbatim>\<open>write\<close> returns
  \<^verbatim>\<open>1 << 1\<close> and \<^verbatim>\<open>full\<close> returns \<^verbatim>\<open>(1 << 0) | (1 << 1)\<close>.
\<close>

definition Access_body :: "(string \<times> attr) list" where
  "Access_body =
     [(''read'', flag_value (push_bit 0 1)),
      (''write'', flag_value (push_bit 1 1)),
      (''full'', flag_value (push_bit 0 1 OR push_bit 1 1))]"

definition Access :: flags_class where
  "Access =
     \<lparr>cls_name = ''Access'', cls_dict = Access_body,
      VALID_FLAGS = collect_flags Access_body, DEFAULT_VALUE = 0\<rparr>"

section \<open>models/flags.py: properties\<close>

lemma nat_bit_length_bounds:
  "2 ^ p \<le> n \<Longrightarrow> n < 2 ^ Suc p \<Longrightarrow> nat_bit_length n = Suc p"
proof (induction p arbitrary: n)
  case 0
  then have "n = 1" by simp
  then show ?case by (simp add: nat_bit_length.simps)
next
  case (Suc p)
  then have "2 ^ p \<le> n div 2" "n div 2 < 2 ^ Suc p" by auto
  then have "nat_bit_length (n div 2) = Suc p" by (rule Suc.IH)
  moreover have "n \<noteq> 0" using Suc.prems by auto
  ultimately show ?case by (subst nat_bit_length.simps) simp
qed

lemma bit_length_bounds:
  assumes "2 ^ p \<le> (m::int)" and "m < 2 ^ Suc p"
  shows "bit_length m = Suc p"
proof -
  have "(0::int) < 2 ^ p" by simp
  with assms(1) have pos: "0 \<le> m" by linarith
  have "(2::nat) ^ p \<le> nat m"
    using assms(1) pos by (simp add: le_nat_iff)
  moreover have "nat m < 2 ^ Suc p"
    using assms(2) pos by (simp add: nat_less_iff)
  ultimately show ?thesis
    using pos by (simp add: bit_length_def nat_bit_length_bounds)
qed

lemma set_collect_flags:
  "set (collect_flags body) = {(n, f). (n, flag_value f) \<in> set body}"
  by (induction body rule: collect_flags.induct) auto

lemma fst_collect_flags: "fst ` set (collect_flags body) \<subseteq> fst ` set body"
  by (force simp: set_collect_flags)

lemma distinct_collect_flags:
  "distinct (map fst body) \<Longrightarrow> distinct (map fst (collect_flags body))"
proof (induction body rule: collect_flags.induct)
  case (2 name f rest)
  then show ?case using fst_collect_flags [of rest] by auto
qed auto

lemma map_of_collect_flags:
  "distinct (map fst body) \<Longrightarrow>
     map_of (collect_flags body) n = Some f \<longleftrightarrow> (n, flag_value f) \<in> set body"
  using set_collect_flags [of body] distinct_collect_flags [of body]
  by (auto simp: map_of_eq_Some_iff)

text \<open>
  Claim C7. \<^verbatim>\<open>fill_with_flags\<close> gives the class the default 0 when it is not inverted.
  When it is inverted and \<open>p\<close> is the position of the highest bit of the largest
  declared value (\<open>2 ^ p \<le> max < 2 ^ (p + 1)\<close>), the default is \<open>2 ^ (p + 1) - 1\<close>.
  In both cases \<^verbatim>\<open>VALID_FLAGS\<close> maps exactly the names of the descriptors to their
  values. The names of a class dictionary are distinct.
\<close>

theorem fill_with_flags_default:
  assumes "distinct (map fst body)"
    and "inverted \<longrightarrow> collect_flags body \<noteq> []
           \<and> 2 ^ p \<le> Max (set (map snd (collect_flags body)))
           \<and> Max (set (map snd (collect_flags body))) < 2 ^ (p + 1)"
  shows "\<exists>c. fill_with_flags inverted name body = Inr c
           \<and> DEFAULT_VALUE c = (if inverted then 2 ^ (p + 1) - 1 else 0)
           \<and> (\<forall>n f. map_of (VALID_FLAGS c) n = Some f \<longleftrightarrow> (n, flag_value f) \<in> set body)"
proof (cases inverted)
  case False
  then show ?thesis
    using assms(1) by (simp add: fill_with_flags_def map_of_collect_flags)
next
  case True
  with assms(2) have ne: "collect_flags body \<noteq> []"
    and lo: "2 ^ p \<le> Max (set (map snd (collect_flags body)))"
    and hi: "Max (set (map snd (collect_flags body))) < 2 ^ Suc p"
    by simp_all
  have "bit_length (Max (set (map snd (collect_flags body)))) = Suc p"
    using lo hi by (rule bit_length_bounds)
  then show ?thesis
    using True ne assms(1) by (simp add: fill_with_flags_def Let_def map_of_collect_flags)
qed

theorem fill_with_flags_default_witness:
  "(\<exists>c. fill_with_flags True ''Perms'' [(''__doc__'', other_attr), (''a'', flag_value 1), (''b'', flag_value 4)] = Inr c
      \<and> DEFAULT_VALUE c = 7
      \<and> (\<forall>n f. map_of (VALID_FLAGS c) n = Some f \<longleftrightarrow>
            (n, flag_value f) \<in> set [(''__doc__'', other_attr), (''a'', flag_value 1), (''b'', flag_value 4)]))
   \<and> (\<exists>c. fill_with_flags False ''UserBadges'' UserBadges_body = Inr c \<and> DEFAULT_VALUE c = 0
      \<and> (\<forall>n f. map_of (VALID_FLAGS c) n = Some f \<longleftrightarrow> (n, flag_value f) \<in> set UserBadges_body))"
proof -
  have d1: "distinct (map fst [(''__doc__'', other_attr), (''a'', flag_value 1), (''b'', flag_value 4)])"
    by simp
  have d2: "distinct (map fst UserBadges_body)"
    by (simp add: UserBadges_body_def)
  have h1: "True \<longrightarrow> collect_flags [(''__doc__'', other_attr), (''a'', flag_value 1), (''b'', flag_value 4)] \<noteq> []
           \<and> 2 ^ 2 \<le> Max (set (map snd (collect_flags [(''__doc__'', other_attr), (''a'', flag_value 1), (''b'', flag_value 4)])))
           \<and> Max (set (map snd (collect_flags [(''__doc__'', other_attr), (''a'', flag_value 1), (''b'', flag_value 4)]))) < 2 ^ (2 + 1)"
    by simp
  have h2: "False \<longrightarrow> collect_flags UserBadges_body \<noteq> []
           \<and> 2 ^ 0 \<le> Max (set (map snd (collect_flags UserBadges_body)))
           \<and> Max (set (map snd (collect_flags UserBadges_body))) < 2 ^ (0 + 1)"
    by simp
  from fill_with_flags_default [OF d1 h1, of "''Perms''"] obtain c
    where c: "fill_with_flags True ''Perms'' [(''__doc__'', other_attr), (''a'', flag_value 1), (''b'', flag_value 4)] = Inr c"
      "DEFAULT_VALUE c = (if True then 2 ^ (2 + 1) - 1 else 0)"
      "\<forall>n f. map_of (VALID_FLAGS c) n = Some f \<longleftrightarrow>
            (n, flag_value f) \<in> set [(''__doc__'', other_attr), (''a'', flag_value 1), (''b'', flag_value 4)]"
    by blast
  have "DEFAULT_VALUE c = 7" using c(2) by simp
  with c(1,3) have A: "\<exists>c. fill_with_flags True ''Perms'' [(''__doc__'', other_attr), (''a'', flag_value 1), (''b'', flag_value 4)] = Inr c
      \<and> DEFAULT_VALUE c = 7
      \<and> (\<forall>n f. map_of (VALID_FLAGS c) n = Some f \<longleftrightarrow>
            (n, flag_value f) \<in> set [(''__doc__'', other_attr), (''a'', flag_value 1), (''b'', flag_value 4)])"
    by blast
  from fill_with_flags_default [OF d2 h2, of "''UserBadges''"] obtain c'
    where c': "fill_with_flags False ''UserBadges'' UserBadges_body = Inr c'"
      "DEFAULT_VALUE c' = (if False then 2 ^ (0 + 1) - 1 else 0)"
      "\<forall>n f. map_of (VALID_FLAGS c') n = Some f \<longleftrightarrow> (n, flag_value f) \<in> set UserBadges_body"
    by blast
  have "DEFAULT_VALUE c' = 0" using c'(2) by simp
  with c'(1,3) have B: "\<exists>c. fill_with_flags False ''UserBadges'' UserBadges_body = Inr c \<and> DEFAULT_VALUE c = 0
      \<and> (\<forall>n f. map_of (VALID_FLAGS c) n = Some f \<longleftrightarrow> (n, flag_value f) \<in> set UserBadges_body)"
    by blast
  from A B show ?thesis by (rule conjI)
qed

lemma or_and_not_commute:
  fixes x f g :: int
  assumes "f AND g = 0"
  shows "(x OR f) AND NOT g = (x AND NOT g) OR f"
proof (rule bit_eqI)
  fix n
  have "\<not> (bit f n \<and> bit g n)"
    using assms by (metis bit_and_iff bit_0_eq bot_apply bot_bool_def)
  then show "bit ((x OR f) AND NOT g) n \<longleftrightarrow> bit ((x AND NOT g) OR f) n"
    by (auto simp: bit_simps)
qed

lemma and_other_after_or:
  fixes x f g :: int
  assumes "f AND g = 0"
  shows "(x OR f) AND g = x AND g"
proof (rule bit_eqI)
  fix n
  have "\<not> (bit f n \<and> bit g n)"
    using assms by (metis bit_and_iff bit_0_eq bot_apply bot_bool_def)
  then show "bit ((x OR f) AND g) n \<longleftrightarrow> bit (x AND g) n"
    by (auto simp: bit_simps)
qed

lemma and_other_after_clear:
  fixes x f g :: int
  assumes "f AND g = 0"
  shows "(x AND NOT f) AND g = x AND g"
proof (rule bit_eqI)
  fix n
  have "\<not> (bit f n \<and> bit g n)"
    using assms by (metis bit_and_iff bit_0_eq bot_apply bot_bool_def)
  then show "bit ((x AND NOT f) AND g) n \<longleftrightarrow> bit (x AND g) n"
    by (auto simp: bit_simps)
qed

lemma own_after_or: "((x::int) OR f) AND f = f"
  by (rule bit_eqI) (auto simp: bit_simps)

lemma own_after_clear: "((x::int) AND NOT f) AND f = 0"
  by (rule bit_eqI) (auto simp: bit_simps)

lemma separate_bitsD:
  assumes "separate_bits c" and "flag_of c n = Some f"
  shows "f \<noteq> 0" and "flag_of c m = Some g \<Longrightarrow> n \<noteq> m \<Longrightarrow> f AND g = 0"
proof -
  have nf: "(n, f) \<in> set (collect_flags (cls_dict c))"
    using assms(2) by (auto simp: flag_of_def dest: map_of_SomeD)
  with assms(1) show "f \<noteq> 0" by (auto simp: separate_bits_def)
  assume "flag_of c m = Some g" and ne: "n \<noteq> m"
  then have "(m, g) \<in> set (collect_flags (cls_dict c))"
    by (auto simp: flag_of_def dest: map_of_SomeD)
  with assms(1) nf ne show "f AND g = 0" by (fastforce simp: separate_bits_def)
qed

text \<open>
  Claim C10, amended. In a flag set whose declared flags keep apart (each a bit of its own, as
  the ten of \<open>UserBadges\<close>), writing \<open>b\<close> to a declared name \<open>n\<close> succeeds, reading
  \<open>n\<close> afterwards gives \<open>b\<close>, every other declared name, if there is
  any, reads as before, and no bit of the backing integer outside the value of \<open>n\<close>
  changes.
\<close>

theorem set_flag_frame:
  assumes "separate_bits (cls self)"
    and "flag_of (cls self) n = Some f"
  shows "\<exists>self'. setattr_flag self n (PBool b) = Inr self'
           \<and> cls self' = cls self
           \<and> get_flag self' n = Some b
           \<and> (\<forall>m g. flag_of (cls self) m = Some g \<and> m \<noteq> n \<longrightarrow> get_flag self' m = get_flag self m)
           \<and> (\<forall>k. \<not> bit f k \<longrightarrow> bit (flags_value self') k = bit (flags_value self) k)"
proof -
  let ?v = "if b then flags_value self OR f else flags_value self AND NOT f"
  let ?s = "self\<lparr>flags_value := ?v\<rparr>"
  have f0: "f \<noteq> 0"
    using separate_bitsD(1) [OF assms] .
  have w: "setattr_flag self n (PBool b) = Inr ?s"
    using assms(2) by (cases b) (simp_all add: setattr_flag_def set_flag_def)
  have c: "cls ?s = cls self" by simp
  have own: "get_flag ?s n = Some b"
    using assms(2) f0
    by (cases b) (simp_all add: get_flag_def has_flag_def own_after_or own_after_clear)
  have other: "get_flag ?s m = get_flag self m"
    if "flag_of (cls self) m = Some g \<and> m \<noteq> n" for m g
  proof -
    from that have g: "flag_of (cls self) m = Some g" and ne: "n \<noteq> m" by auto
    have fg: "f AND g = 0"
      using separate_bitsD(2) [OF assms g ne] .
    show ?thesis
      using g fg
      by (cases b) (simp_all add: get_flag_def has_flag_def and_other_after_or and_other_after_clear)
  qed
  have bits: "bit (flags_value ?s) k = bit (flags_value self) k" if "\<not> bit f k" for k
    using that by (cases b) (simp_all add: bit_simps)
  from w c own other bits show ?thesis by blast
qed

lemma UserBadges_flags:
  "collect_flags UserBadges_body =
     [(''developer'', 1), (''translator'', 2), (''supporter'', 4),
      (''responsible_disclosure'', 8), (''founder'', 16), (''platform_moderation'', 32),
      (''active_supporter'', 64), (''paw'', 128), (''early_adopter'', 256),
      (''reserved_relevant_joke_badge_1'', 512)]"
  by (simp add: UserBadges_body_def)

lemma UserBadges_separate_bits: "separate_bits UserBadges"
  unfolding separate_bits_def UserBadges_def
  by (simp add: UserBadges_flags)

theorem set_flag_frame_witness:
  "flag_of UserBadges ''supporter'' = Some 4
   \<and> flag_of UserBadges ''translator'' = Some 2 \<and> ''translator'' \<noteq> ''supporter''
   \<and> get_flag \<lparr>cls = UserBadges, flags_value = 6\<rparr> ''translator'' = Some True
   \<and> (\<exists>self'. setattr_flag \<lparr>cls = UserBadges, flags_value = 6\<rparr> ''supporter'' (PBool False) = Inr self'
           \<and> cls self' = UserBadges
           \<and> get_flag self' ''supporter'' = Some False
           \<and> get_flag self' ''translator'' = Some True)"
proof -
  have a: "flag_of (cls \<lparr>cls = UserBadges, flags_value = 6\<rparr>) ''supporter'' = Some 4"
    by (simp add: flag_of_def UserBadges_def UserBadges_flags)
  have b: "flag_of UserBadges ''translator'' = Some 2 \<and> ''translator'' \<noteq> ''supporter''"
    by (simp add: flag_of_def UserBadges_def UserBadges_flags)
  have c: "separate_bits (cls \<lparr>cls = UserBadges, flags_value = 6\<rparr>)"
    by (simp add: UserBadges_separate_bits)
  have t: "get_flag \<lparr>cls = UserBadges, flags_value = 6\<rparr> ''translator'' = Some True"
    by (simp add: get_flag_def flag_of_def UserBadges_def UserBadges_flags has_flag_def)
  from set_flag_frame [OF c a, of False] obtain self' where
    s: "setattr_flag \<lparr>cls = UserBadges, flags_value = 6\<rparr> ''supporter'' (PBool False) = Inr self'"
      "cls self' = cls \<lparr>cls = UserBadges, flags_value = 6\<rparr>"
      "get_flag self' ''supporter'' = Some False"
    and o: "\<forall>m g. flag_of (cls \<lparr>cls = UserBadges, flags_value = 6\<rparr>) m = Some g \<and> m \<noteq> ''supporter''
              \<longrightarrow> get_flag self' m = get_flag \<lparr>cls = UserBadges, flags_value = 6\<rparr> m"
    by blast
  have "get_flag self' ''translator'' = get_flag \<lparr>cls = UserBadges, flags_value = 6\<rparr> ''translator''"
    using o b by simp
  with t have "get_flag self' ''translator'' = Some True" by simp
  with s have "\<exists>self'. setattr_flag \<lparr>cls = UserBadges, flags_value = 6\<rparr> ''supporter'' (PBool False) = Inr self'
           \<and> cls self' = UserBadges
           \<and> get_flag self' ''supporter'' = Some False
           \<and> get_flag self' ''translator'' = Some True"
    by auto
  with a b t show ?thesis by simp
qed

text \<open>
  Claim C10 as stated holds of every flag set. Where the value of one flag holds the bit
  of another, writing the one changes what the other reads: clearing \<open>read\<close> in an
  instance with both bits set turns \<open>full\<close> from true to false.
\<close>

theorem overlapping_flags_counterexample:
  "fill_with_flags False ''Access'' Access_body = Inr Access
   \<and> get_flag \<lparr>cls = Access, flags_value = 3\<rparr> ''full'' = Some True
   \<and> setattr_flag \<lparr>cls = Access, flags_value = 3\<rparr> ''read'' (PBool False)
       = Inr \<lparr>cls = Access, flags_value = 2\<rparr>
   \<and> get_flag \<lparr>cls = Access, flags_value = 2\<rparr> ''full'' = Some False"
  by (simp add: fill_with_flags_def Access_def Access_body_def get_flag_def setattr_flag_def
      set_flag_def flag_of_def has_flag_def)

lemma setattr_flag_good:
  "good_kw (cls self) (k, v) \<Longrightarrow>
     setattr_flag self k v = Inr (self\<lparr>flags_value := apply_kw (cls self) (k, v) (flags_value self)\<rparr>)"
  by (auto simp: good_kw_def setattr_flag_def set_flag_def apply_kw_def split: option.splits)

lemma setattr_flag_Inr:
  "setattr_flag self k v = Inr self' \<Longrightarrow>
     flag_of (cls self) k \<noteq> None \<longrightarrow> (v = PBool True \<or> v = PBool False)"
  by (auto simp: setattr_flag_def set_flag_def split: option.splits if_splits)

lemma init_loop_good:
  "\<forall>kv \<in> set kws. good_kw (cls self) kv \<Longrightarrow>
     init_loop self kws = Inr (self\<lparr>flags_value := fold (apply_kw (cls self)) kws (flags_value self)\<rparr>)"
proof (induction kws arbitrary: self)
  case Nil
  then show ?case by simp
next
  case (Cons kv kws)
  obtain k v where kv: "kv = (k, v)" by (cases kv)
  have g: "good_kw (cls self) (k, v)" using Cons.prems kv by simp
  then have valid: "map_of (VALID_FLAGS (cls self)) k \<noteq> None" by (simp add: good_kw_def)
  let ?s = "self\<lparr>flags_value := apply_kw (cls self) (k, v) (flags_value self)\<rparr>"
  have "\<forall>kv \<in> set kws. good_kw (cls ?s) kv" using Cons.prems by simp
  then have "init_loop ?s kws = Inr (?s\<lparr>flags_value := fold (apply_kw (cls ?s)) kws (flags_value ?s)\<rparr>)"
    by (rule Cons.IH)
  then show ?case
    using valid setattr_flag_good [OF g] by (simp add: kv)
qed

lemma init_loop_Inr_good:
  "init_loop self kws = Inr a \<Longrightarrow> \<forall>kv \<in> set kws. good_kw (cls self) kv"
proof (induction kws arbitrary: self)
  case Nil
  then show ?case by simp
next
  case (Cons kv kws)
  obtain k v where kv: "kv = (k, v)" by (cases kv)
  from Cons.prems kv have valid: "map_of (VALID_FLAGS (cls self)) k \<noteq> None"
    by (auto split: if_splits)
  from Cons.prems kv valid obtain s where s: "setattr_flag self k v = Inr s" "init_loop s kws = Inr a"
    by (auto split: sum.splits)
  have cls_s: "cls s = cls self"
    using s(1) by (auto simp: setattr_flag_def set_flag_def split: option.splits if_splits)
  have "good_kw (cls self) (k, v)"
    using valid setattr_flag_Inr [OF s(1)] by (simp add: good_kw_def)
  moreover have "\<forall>kv \<in> set kws. good_kw (cls self) kv"
    using Cons.IH [OF s(2)] cls_s by simp
  ultimately show ?case by (simp add: kv)
qed

lemma apply_kw_commute:
  assumes sep: "separate_bits c" and ne: "fst kv \<noteq> fst kv'"
  shows "apply_kw c kv \<circ> apply_kw c kv' = apply_kw c kv' \<circ> apply_kw c kv"
proof (cases "flag_of c (fst kv)")
  case None
  then show ?thesis by (auto simp: apply_kw_def fun_eq_iff)
next
  case (Some f)
  note f = this
  show ?thesis
  proof (cases "flag_of c (fst kv')")
    case None
    then show ?thesis by (auto simp: apply_kw_def fun_eq_iff)
  next
    case (Some g)
    have fg: "f AND g = 0" using separate_bitsD(2) [OF sep f Some ne] .
    then have gf: "g AND f = 0" by (simp add: and.commute)
    show ?thesis
      using f Some or_and_not_commute [OF fg] or_and_not_commute [OF gf]
      by (auto simp: apply_kw_def fun_eq_iff or.left_commute or.commute and.left_commute and.commute
          ac_simps)
  qed
qed

lemma fold_apply_kw_permute:
  assumes sep: "separate_bits c" and d: "distinct (map fst kws)" and m: "mset kws = mset kws'"
  shows "fold (apply_kw c) kws = fold (apply_kw c) kws'"
proof (rule fold_multiset_equiv [OF _ m])
  fix x y
  assume "x \<in> set kws" and "y \<in> set kws"
  then have "x = y \<or> fst x \<noteq> fst y"
    using d by (meson distinct_map inj_onD)
  then show "apply_kw c x \<circ> apply_kw c y = apply_kw c y \<circ> apply_kw c x"
  proof
    assume "x = y"
    then show ?thesis by simp
  next
    assume "fst x \<noteq> fst y"
    then show ?thesis by (rule apply_kw_commute [OF sep])
  qed
qed

lemma BaseFlags_init_permute:
  assumes sep: "separate_bits c" and d: "distinct (map fst kws)" and m: "mset kws = mset kws'"
    and a: "BaseFlags_init c kws = Inr a"
  shows "BaseFlags_init c kws' = Inr a"
proof -
  let ?s = "\<lparr>cls = c, flags_value = DEFAULT_VALUE c\<rparr>"
  have g: "\<forall>kv \<in> set kws. good_kw (cls ?s) kv"
    using a by (auto simp: BaseFlags_init_def dest: init_loop_Inr_good)
  have "set kws' = set kws" using m by (metis mset_eq_setD)
  with g have g': "\<forall>kv \<in> set kws'. good_kw (cls ?s) kv" by simp
  have "fold (apply_kw c) kws = fold (apply_kw c) kws'"
    using sep d m by (rule fold_apply_kw_permute)
  then show ?thesis
    using a init_loop_good [OF g] init_loop_good [OF g'] by (simp add: BaseFlags_init_def)
qed

text \<open>
  Claim C6. \<^verbatim>\<open>UserBadges(developer=True, founder=True)\<close> has the backing integer
  \<^verbatim>\<open>(1 << 0) | (1 << 4)\<close>; iterating it yields the ten declared names in order,
  \<open>developer\<close> and \<open>founder\<close> true and the other eight false; and the keywords of a
  construction that succeeds, given in any other order, construct an equal instance.
  The keys of keyword arguments are distinct.
\<close>

theorem UserBadges_developer_founder:
  "BaseFlags_init UserBadges [(''developer'', PBool True), (''founder'', PBool True)]
     = Inr \<lparr>cls = UserBadges, flags_value = push_bit 0 1 OR push_bit 4 1\<rparr>
   \<and> flags_iter \<lparr>cls = UserBadges, flags_value = push_bit 0 1 OR push_bit 4 1\<rparr>
     = [(''developer'', True), (''translator'', False), (''supporter'', False),
        (''responsible_disclosure'', False), (''founder'', True),
        (''platform_moderation'', False), (''active_supporter'', False), (''paw'', False),
        (''early_adopter'', False), (''reserved_relevant_joke_badge_1'', False)]
   \<and> (\<forall>kws kws' a. distinct (map fst kws) \<and> mset kws = mset kws'
          \<and> BaseFlags_init UserBadges kws = Inr a
        \<longrightarrow> (\<exists>b. BaseFlags_init UserBadges kws' = Inr b \<and> flags_eq a b \<and> flags_eq b a))"
proof (intro conjI allI impI)
  show "BaseFlags_init UserBadges [(''developer'', PBool True), (''founder'', PBool True)]
     = Inr \<lparr>cls = UserBadges, flags_value = push_bit 0 1 OR push_bit 4 1\<rparr>"
    by (simp add: BaseFlags_init_def UserBadges_def UserBadges_flags setattr_flag_def
        flag_of_def set_flag_def)
  show "flags_iter \<lparr>cls = UserBadges, flags_value = push_bit 0 1 OR push_bit 4 1\<rparr>
     = [(''developer'', True), (''translator'', False), (''supporter'', False),
        (''responsible_disclosure'', False), (''founder'', True),
        (''platform_moderation'', False), (''active_supporter'', False), (''paw'', False),
        (''early_adopter'', False), (''reserved_relevant_joke_badge_1'', False)]"
    by (simp add: flags_iter_def UserBadges_def UserBadges_flags has_flag_def)
next
  fix kws kws' a
  assume h: "distinct (map fst kws) \<and> mset kws = mset kws' \<and> BaseFlags_init UserBadges kws = Inr a"
  then have "BaseFlags_init UserBadges kws' = Inr a"
    using BaseFlags_init_permute [OF UserBadges_separate_bits] by blast
  then show "\<exists>b. BaseFlags_init UserBadges kws' = Inr b \<and> flags_eq a b \<and> flags_eq b a"
    by (simp add: flags_eq_def)
qed

theorem UserBadges_developer_founder_witness:
  "distinct (map fst [(''founder'', PBool True), (''developer'', PBool True)])
   \<and> mset [(''founder'', PBool True), (''developer'', PBool True)]
       = mset [(''developer'', PBool True), (''founder'', PBool True)]
   \<and> BaseFlags_init UserBadges [(''founder'', PBool True), (''developer'', PBool True)]
       = Inr \<lparr>cls = UserBadges, flags_value = 17\<rparr>
   \<and> BaseFlags_init UserBadges [(''developer'', PBool True), (''founder'', PBool True)]
       = Inr \<lparr>cls = UserBadges, flags_value = 17\<rparr>
   \<and> flags_eq \<lparr>cls = UserBadges, flags_value = 17\<rparr> \<lparr>cls = UserBadges, flags_value = 17\<rparr>"
proof -
  have d: "distinct (map fst [(''founder'', PBool True), (''developer'', PBool True)])"
    by simp
  have m: "mset [(''founder'', PBool True), (''developer'', PBool True)]
       = mset [(''developer'', PBool True), (''founder'', PBool True)]"
    by (simp add: add.commute)
  have i: "BaseFlags_init UserBadges [(''founder'', PBool True), (''developer'', PBool True)]
       = Inr \<lparr>cls = UserBadges, flags_value = 17\<rparr>"
    by (simp add: BaseFlags_init_def UserBadges_def UserBadges_flags setattr_flag_def
        flag_of_def set_flag_def)
  from UserBadges_developer_founder d m i
  have "\<exists>b. BaseFlags_init UserBadges [(''developer'', PBool True), (''founder'', PBool True)] = Inr b
          \<and> flags_eq \<lparr>cls = UserBadges, flags_value = 17\<rparr> b \<and> flags_eq b \<lparr>cls = UserBadges, flags_value = 17\<rparr>"
    by blast
  then have "BaseFlags_init UserBadges [(''developer'', PBool True), (''founder'', PBool True)]
       = Inr \<lparr>cls = UserBadges, flags_value = 17\<rparr>"
    by (auto simp: flags_eq_def)
  with d m i show ?thesis by (simp add: flags_eq_def)
qed

lemma UserBadges_decorated: "fill_with_flags False ''UserBadges'' UserBadges_body = Inr UserBadges"
  by (simp add: fill_with_flags_def UserBadges_def)

lemma fill_with_flags_fields:
  "fill_with_flags inverted name body = Inr c \<Longrightarrow>
     cls_name c = name \<and> cls_dict c = body \<and> VALID_FLAGS c = collect_flags body"
  by (auto simp: fill_with_flags_def Let_def split: if_splits)

lemma setattr_flag_cls: "setattr_flag self k v = Inr s \<Longrightarrow> cls s = cls self"
  by (auto simp: setattr_flag_def set_flag_def split: option.splits if_splits)

lemma init_loop_bad:
  assumes "VALID_FLAGS (cls self) = collect_flags (cls_dict (cls self))"
    and "(key, v) \<in> set kws"
    and "map_of (VALID_FLAGS (cls self)) key = None \<or> (\<forall>b. v \<noteq> PBool b)"
  shows "\<exists>m. init_loop self kws = Inl (TypeError m)"
  using assms
proof (induction kws arbitrary: self)
  case Nil
  then show ?case by simp
next
  case (Cons kv kws)
  obtain k' v' where kv: "kv = (k', v')" by (cases kv)
  show ?case
  proof (cases "map_of (VALID_FLAGS (cls self)) k' = None")
    case True
    then show ?thesis by (simp add: kv)
  next
    case False
    then obtain f where f: "flag_of (cls self) k' = Some f"
      using Cons.prems(1) by (auto simp: flag_of_def)
    show ?thesis
    proof (cases "\<exists>b. v' = PBool b")
      case nb: False
      then have "setattr_flag self k' v' = Inl (TypeError (MustBeABool (cls_name (cls self))))"
        using f by (auto simp: setattr_flag_def set_flag_def)
      then show ?thesis using False by (simp add: kv)
    next
      case True
      then obtain b where b: "v' = PBool b" by blast
      have "\<exists>s. setattr_flag self k' v' = Inr s"
        using f b by (cases b) (simp_all add: setattr_flag_def set_flag_def)
      then obtain s where s: "setattr_flag self k' v' = Inr s" by blast
      have c: "cls s = cls self" using s by (rule setattr_flag_cls)
      have "(key, v) \<in> set kws"
        using Cons.prems(2,3) kv False True by auto
      then have "\<exists>m. init_loop s kws = Inl (TypeError m)"
        using Cons.IH [of s] Cons.prems(1,3) c by simp
      then show ?thesis using False s by (simp add: kv)
    qed
  qed
qed

text \<open>
  Claim C8, amended. For a class made by \<^verbatim>\<open>fill_with_flags\<close>, keyword arguments that
  hold a name outside \<^verbatim>\<open>VALID_FLAGS\<close>, or a value that is not a boolean, make the
  construction fail with a \<^verbatim>\<open>TypeError\<close>; when the offending keyword comes first the
  message names the key for an undeclared name, and says that the value must be a
  bool for a declared one. Both failures are of the one class \<^verbatim>\<open>TypeError\<close>.
\<close>

theorem flags_init_rejects:
  assumes "fill_with_flags inverted name body = Inr c"
    and "(key, v) \<in> set kwargs"
    and "map_of (VALID_FLAGS c) key = None \<or> (\<forall>b. v \<noteq> PBool b)"
  shows "(\<exists>m. BaseFlags_init c kwargs = Inl (TypeError m))
       \<and> (\<forall>rest. kwargs = (key, v) # rest \<longrightarrow>
            BaseFlags_init c kwargs =
              Inl (TypeError (if map_of (VALID_FLAGS c) key = None
                              then NotAValidFlagName key else MustBeABool name)))"
proof -
  have fields: "cls_name c = name" "cls_dict c = body" "VALID_FLAGS c = collect_flags body"
    using fill_with_flags_fields [OF assms(1)] by simp_all
  have 1: "\<exists>m. BaseFlags_init c kwargs = Inl (TypeError m)"
    unfolding BaseFlags_init_def
    by (rule init_loop_bad [where key = key and v = v]) (use assms(2,3) fields in simp_all)
  have 2: "BaseFlags_init c ((key, v) # rest) =
              Inl (TypeError (if map_of (VALID_FLAGS c) key = None
                              then NotAValidFlagName key else MustBeABool name))" for rest
  proof (cases "map_of (VALID_FLAGS c) key = None")
    case True
    then show ?thesis by (simp add: BaseFlags_init_def)
  next
    case False
    then have nb: "\<forall>b. v \<noteq> PBool b" using assms(3) by blast
    from False obtain f where "flag_of c key = Some f"
      using fields by (auto simp: flag_of_def)
    then show ?thesis
      using False nb fields by (simp add: BaseFlags_init_def setattr_flag_def set_flag_def)
  qed
  from 1 2 show ?thesis by blast
qed

text \<open>
  Claim C8 as stated says the two failures are of distinct kinds. An undeclared name
  and a non-boolean value both raise \<^verbatim>\<open>TypeError\<close>.
\<close>

theorem flags_init_rejects_counterexample:
  "BaseFlags_init UserBadges [(''admin'', PBool True)] = Inl (TypeError (NotAValidFlagName ''admin''))
   \<and> BaseFlags_init UserBadges [(''developer'', PNum 1)] = Inl (TypeError (MustBeABool ''UserBadges''))
   \<and> exception_class (TypeError (NotAValidFlagName ''admin''))
       = exception_class (TypeError (MustBeABool ''UserBadges''))"
  by (simp add: BaseFlags_init_def UserBadges_def UserBadges_flags setattr_flag_def
      flag_of_def set_flag_def exception_class_def)

theorem flags_init_rejects_witness:
  "fill_with_flags False ''UserBadges'' UserBadges_body = Inr UserBadges
   \<and> (''developer'', PNum 1) \<in> set [(''developer'', PNum 1), (''paw'', PBool True)]
   \<and> (\<forall>b. PNum 1 \<noteq> PBool b)
   \<and> BaseFlags_init UserBadges [(''developer'', PNum 1), (''paw'', PBool True)]
       = Inl (TypeError (MustBeABool ''UserBadges''))"
proof -
  have a: "fill_with_flags False ''UserBadges'' UserBadges_body = Inr UserBadges"
    by (rule UserBadges_decorated)
  have b: "(''developer'', PNum 1) \<in> set [(''developer'', PNum 1), (''paw'', PBool True)]"
    by simp
  have c: "map_of (VALID_FLAGS UserBadges) ''developer'' = None \<or> (\<forall>b. PNum 1 \<noteq> PBool b)"
    by simp
  have v: "map_of (VALID_FLAGS UserBadges) ''developer'' \<noteq> None"
    by (simp add: UserBadges_def UserBadges_flags)
  from flags_init_rejects [OF a b c] v
  have "BaseFlags_init UserBadges [(''developer'', PNum 1), (''paw'', PBool True)]
       = Inl (TypeError (MustBeABool ''UserBadges''))"
    by simp
  with a b show ?thesis by simp
qed

section \<open>http.py: properties\<close>

lemma upt_0_5: "[0..<5] = [0, 1, 2, 3, 4]"
  by (simp add: upt_rec)

subsection \<open>Route\<close>

text \<open>
  Claim C4, amended. The bucket of every route that is built is the channel id, a colon,
  the server id, a colon and the path template as given (not the URL with the parameters
  filled in), where an absent major parameter is rendered as the text \<open>None\<close>. The route
  of the claim's example has the bucket \<open>C:S:/x/{channel_id}\<close>.
\<close>

theorem bucket_of_Route:
  assumes "Route format_map uriquote m p ps = Inr r"
  shows "bucket r =
           (case map_of ps ''channel_id'' of None \<Rightarrow> ''None'' | Some c \<Rightarrow> c) @ '':'' @
           (case map_of ps ''server_id'' of None \<Rightarrow> ''None'' | Some s \<Rightarrow> s) @ '':'' @ p
       \<and> (ps = [(''channel_id'', ''C''), (''server_id'', ''S'')] \<and> p = ''/x/{channel_id}''
            \<longrightarrow> bucket r = ''C:S:/x/{channel_id}'')"
  using assms
  by (auto simp: Route_def bucket_def str_of_def split: sum.splits if_splits option.splits)

theorem bucket_of_Route_witness:
  "Route (answer ''https://api.revolt.chat/x/C'') id ''GET'' ''/x/{channel_id}''
       [(''channel_id'', ''C''), (''server_id'', ''S'')]
     = Inr \<lparr>path = ''/x/{channel_id}'', method = ''GET'', url = ''https://api.revolt.chat/x/C'',
            channel_id = Some ''C'', server_id = Some ''S''\<rparr>
   \<and> bucket \<lparr>path = ''/x/{channel_id}'', method = ''GET'', url = ''https://api.revolt.chat/x/C'',
            channel_id = Some ''C'', server_id = Some ''S''\<rparr> = ''C:S:/x/{channel_id}''"
proof -
  have r: "Route (answer ''https://api.revolt.chat/x/C'') id ''GET'' ''/x/{channel_id}''
       [(''channel_id'', ''C''), (''server_id'', ''S'')]
     = Inr \<lparr>path = ''/x/{channel_id}'', method = ''GET'', url = ''https://api.revolt.chat/x/C'',
            channel_id = Some ''C'', server_id = Some ''S''\<rparr>"
    by (simp add: Route_def answer_def BASE_def)
  from bucket_of_Route [OF r] r show ?thesis by simp
qed

text \<open>
  Claim C4 as stated renders an absent major parameter as an empty placeholder. The route
  of \<^verbatim>\<open>Route('GET', '/')\<close> has no major parameter, and its bucket is
  \<open>None:None:/\<close>, not \<open>::/\<close>.
\<close>

theorem bucket_absent_counterexample:
  "Route (answer []) id ''GET'' ''/'' [] = Inr root_route
   \<and> channel_id root_route = None \<and> server_id root_route = None
   \<and> bucket root_route = ''None:None:/''
   \<and> bucket root_route \<noteq> [] @ '':'' @ [] @ '':'' @ ''/''"
  by (simp add: Route_def root_route_def BASE_def bucket_def str_of_def)

subsection \<open>The retry loop\<close>

text \<open>
  Claim C2. When every exchange is answered with status 502 the request raises
  \<open>RevoltServerError\<close> after five exchanges. It sleeps after each of them, the fifth
  included: the delays are 1, 3, 5, 7 and 9 seconds, where the claim has four sleeps
  and none after the last attempt.
\<close>

theorem five_bad_gateways:
  "request client0 root_route None None (always bad_gateway) =
     (Raises (RevoltServerError bad_gateway (PStr ''Bad Gateway'')),
      client0\<lparr>trace :=
        [Acquire ''None:None:/'',
         Request ''GET'' ''https://api.revolt.chat/'' [(''User-Agent'', ''Pyvolt'')] NoBody,
         Sleep 1,
         Request ''GET'' ''https://api.revolt.chat/'' [(''User-Agent'', ''Pyvolt'')] NoBody,
         Sleep 3,
         Request ''GET'' ''https://api.revolt.chat/'' [(''User-Agent'', ''Pyvolt'')] NoBody,
         Sleep 5,
         Request ''GET'' ''https://api.revolt.chat/'' [(''User-Agent'', ''Pyvolt'')] NoBody,
         Sleep 7,
         Request ''GET'' ''https://api.revolt.chat/'' [(''User-Agent'', ''Pyvolt'')] NoBody,
         Sleep 9,
         Release ''None:None:/'']\<rparr>)"
  by (simp add: request_def Let_def upt_0_5 request_attempt_def json_or_text_def emit_def
      client0_def root_route_def bad_gateway_def always_def bucket_def str_of_def)

lemma rate_limited_decoded:
  assumes "status r = 429" and "json_or_text r = Inr data" and "net tries = Inr r"
  shows "(map_of (headers r) ''Via'' = None \<or> map_of (headers r) ''Via'' = Some [] \<or> is_str data
            \<longrightarrow> request_loop st sent net prev (tries # rest)
                  = (Raises (HTTPException r data), st\<lparr>trace := trace st @ [sent]\<rparr>))
       \<and> (\<forall>via kvs d g.
             map_of (headers r) ''Via'' = Some via \<and> via \<noteq> [] \<and> data = PDict kvs
             \<and> map_of kvs ''retry_after'' = Some (PNum d)
             \<and> (map_of kvs ''global'' = None \<and> \<not> g \<or> map_of kvs ''global'' = Some (PBool g))
            \<longrightarrow> request_loop st sent net prev (tries # rest)
                  = request_loop
                      (if g
                       then st\<lparr>global_over := True,
                               trace := trace st @ [sent, GateClear, Sleep d, GateSet]\<rparr>
                       else st\<lparr>trace := trace st @ [sent, Sleep d]\<rparr>)
                      sent net (Some (r, data)) rest)"
proof (intro conjI allI impI)
  assume "map_of (headers r) ''Via'' = None \<or> map_of (headers r) ''Via'' = Some [] \<or> is_str data"
  then have "request_attempt st sent tries prev (Inr r)
      = (Raise (HTTPException r data), st\<lparr>trace := trace st @ [sent]\<rparr>, Some (r, data))"
    using assms(1,2) by (simp add: request_attempt_def Let_def emit_def)
  then show "request_loop st sent net prev (tries # rest)
                  = (Raises (HTTPException r data), st\<lparr>trace := trace st @ [sent]\<rparr>)"
    using assms(3) by simp
next
  fix via kvs d g
  assume h: "map_of (headers r) ''Via'' = Some via \<and> via \<noteq> [] \<and> data = PDict kvs
             \<and> map_of kvs ''retry_after'' = Some (PNum d)
             \<and> (map_of kvs ''global'' = None \<and> \<not> g \<or> map_of kvs ''global'' = Some (PBool g))"
  then have glob: "dict_get data ''global'' (PBool False) = Inr (PBool g)"
    by auto
  have ra: "getitem data ''retry_after'' = Inr (PNum d)"
    using h by simp
  have via: "map_of (headers r) ''Via'' \<noteq> None" "map_of (headers r) ''Via'' \<noteq> Some []"
    "\<not> is_str data"
    using h by auto
  have "request_attempt st sent tries prev (Inr r)
      = (Continue,
         (if g
          then st\<lparr>global_over := True, trace := trace st @ [sent, GateClear, Sleep d, GateSet]\<rparr>
          else st\<lparr>trace := trace st @ [sent, Sleep d]\<rparr>),
         Some (r, data))"
    using assms(1,2) glob ra via
    by (simp add: request_attempt_def Let_def emit_def gate_clear_def gate_set_def asyncio_sleep_def)
  then show "request_loop st sent net prev (tries # rest)
                  = request_loop
                      (if g
                       then st\<lparr>global_over := True,
                               trace := trace st @ [sent, GateClear, Sleep d, GateSet]\<rparr>
                       else st\<lparr>trace := trace st @ [sent, Sleep d]\<rparr>)
                      sent net (Some (r, data)) rest"
    using assms(3) by simp
qed

lemma json_or_text_fails:
  "(\<exists>e. json_or_text r = Inl e) \<longleftrightarrow>
     map_of (headers r) ''content-type'' = Some ''application/json'' \<and> loads r = None"
  by (auto simp: json_or_text_def split: option.splits if_splits)

lemma json_or_text_error: "json_or_text r = Inl e \<Longrightarrow> e = JSONDecodeError"
  by (auto simp: json_or_text_def split: option.splits if_splits)

text \<open>
  Claim C1, amended. An iteration of the retry loop that receives a response of status
  429. If the body is announced as \<open>application/json\<close> and does not parse, the
  decoding error is raised and nothing else happens. Otherwise the body decodes, and: if
  the header \<open>Via\<close> is absent or empty, or the decoded body is a string, the request
  raises \<open>HTTPException\<close> at once, nothing follows the exchange, and the iterations
  left are not run; if the header has a value and the body is a JSON object with a number
  under \<open>retry_after\<close> and, if it has the key at all, a boolean under \<open>global\<close>,
  then the gate is cleared before the sleep and set after it exactly when \<open>global\<close>
  is true, the sleep lasts \<open>retry_after\<close> seconds, and the loop goes on with the
  iterations left.
\<close>

theorem rate_limited_attempt:
  assumes "status r = 429" and "net tries = Inr r"
  shows "((\<exists>e. json_or_text r = Inl e) \<longleftrightarrow>
            map_of (headers r) ''content-type'' = Some ''application/json'' \<and> loads r = None)
       \<and> (\<forall>e. json_or_text r = Inl e
            \<longrightarrow> e = JSONDecodeError
              \<and> request_loop st sent net prev (tries # rest)
                  = (Raises e, st\<lparr>trace := trace st @ [sent]\<rparr>))
       \<and> (\<forall>data. json_or_text r = Inr data
            \<longrightarrow> (map_of (headers r) ''Via'' = None \<or> map_of (headers r) ''Via'' = Some []
                   \<or> is_str data
                  \<longrightarrow> request_loop st sent net prev (tries # rest)
                        = (Raises (HTTPException r data), st\<lparr>trace := trace st @ [sent]\<rparr>))
              \<and> (\<forall>via kvs d g.
                    map_of (headers r) ''Via'' = Some via \<and> via \<noteq> [] \<and> data = PDict kvs
                    \<and> map_of kvs ''retry_after'' = Some (PNum d)
                    \<and> (map_of kvs ''global'' = None \<and> \<not> g
                       \<or> map_of kvs ''global'' = Some (PBool g))
                  \<longrightarrow> request_loop st sent net prev (tries # rest)
                        = request_loop
                            (if g
                             then st\<lparr>global_over := True,
                                     trace := trace st @ [sent, GateClear, Sleep d, GateSet]\<rparr>
                             else st\<lparr>trace := trace st @ [sent, Sleep d]\<rparr>)
                            sent net (Some (r, data)) rest))"
proof (intro conjI)
  show "(\<exists>e. json_or_text r = Inl e) \<longleftrightarrow>
            map_of (headers r) ''content-type'' = Some ''application/json'' \<and> loads r = None"
    by (rule json_or_text_fails)
  show "\<forall>e. json_or_text r = Inl e
            \<longrightarrow> e = JSONDecodeError
              \<and> request_loop st sent net prev (tries # rest)
                  = (Raises e, st\<lparr>trace := trace st @ [sent]\<rparr>)"
  proof (intro allI impI)
    fix e
    assume e: "json_or_text r = Inl e"
    then have "request_attempt st sent tries prev (Inr r)
        = (Raise e, st\<lparr>trace := trace st @ [sent]\<rparr>, prev)"
      by (simp add: request_attempt_def Let_def emit_def)
    then have "request_loop st sent net prev (tries # rest)
                  = (Raises e, st\<lparr>trace := trace st @ [sent]\<rparr>)"
      using assms(2) by simp
    with json_or_text_error [OF e]
    show "e = JSONDecodeError
              \<and> request_loop st sent net prev (tries # rest)
                  = (Raises e, st\<lparr>trace := trace st @ [sent]\<rparr>)"
      by simp
  qed
  show "\<forall>data. json_or_text r = Inr data
            \<longrightarrow> (map_of (headers r) ''Via'' = None \<or> map_of (headers r) ''Via'' = Some []
                   \<or> is_str data
                  \<longrightarrow> request_loop st sent net prev (tries # rest)
                        = (Raises (HTTPException r data), st\<lparr>trace := trace st @ [sent]\<rparr>))
              \<and> (\<forall>via kvs d g.
                    map_of (headers r) ''Via'' = Some via \<and> via \<noteq> [] \<and> data = PDict kvs
                    \<and> map_of kvs ''retry_after'' = Some (PNum d)
                    \<and> (map_of kvs ''global'' = None \<and> \<not> g
                       \<or> map_of kvs ''global'' = Some (PBool g))
                  \<longrightarrow> request_loop st sent net prev (tries # rest)
                        = request_loop
                            (if g
                             then st\<lparr>global_over := True,
                                     trace := trace st @ [sent, GateClear, Sleep d, GateSet]\<rparr>
                             else st\<lparr>trace := trace st @ [sent, Sleep d]\<rparr>)
                            sent net (Some (r, data)) rest)"
  proof (intro allI impI)
    fix data
    assume "json_or_text r = Inr data"
    from rate_limited_decoded [where net = net and tries = tries and st = st and sent = sent
        and prev = prev and rest = rest, OF assms(1) this assms(2)]
    show "(map_of (headers r) ''Via'' = None \<or> map_of (headers r) ''Via'' = Some []
                   \<or> is_str data
                  \<longrightarrow> request_loop st sent net prev (tries # rest)
                        = (Raises (HTTPException r data), st\<lparr>trace := trace st @ [sent]\<rparr>))
              \<and> (\<forall>via kvs d g.
                    map_of (headers r) ''Via'' = Some via \<and> via \<noteq> [] \<and> data = PDict kvs
                    \<and> map_of kvs ''retry_after'' = Some (PNum d)
                    \<and> (map_of kvs ''global'' = None \<and> \<not> g
                       \<or> map_of kvs ''global'' = Some (PBool g))
                  \<longrightarrow> request_loop st sent net prev (tries # rest)
                        = request_loop
                            (if g
                             then st\<lparr>global_over := True,
                                     trace := trace st @ [sent, GateClear, Sleep d, GateSet]\<rparr>
                             else st\<lparr>trace := trace st @ [sent, Sleep d]\<rparr>)
                            sent net (Some (r, data)) rest)" .
  qed
qed

theorem rate_limited_attempt_witness:
  "request_loop client0 ping (always (garbled 429)) None [0, 1, 2, 3, 4]
     = (Raises JSONDecodeError, client0\<lparr>trace := [ping]\<rparr>)
   \<and> request_loop client0 ping (always blocked_429) None [0, 1, 2, 3, 4]
     = (Raises (HTTPException blocked_429 (PStr ''error code: 1015'')), client0\<lparr>trace := [ping]\<rparr>)
   \<and> request_loop client0 ping (always global_429) None [4]
     = (Raises (HTTPException global_429
                 (PDict [(''retry_after'', PNum (1 / 100)), (''global'', PBool True)])),
        client0\<lparr>trace := [ping, GateClear, Sleep (1 / 100), GateSet]\<rparr>)"
proof -
  have s0: "status (garbled 429) = 429" by (simp add: garbled_def)
  have j0: "json_or_text (garbled 429) = Inl JSONDecodeError"
    by (simp add: json_or_text_def garbled_def)
  have n0: "always (garbled 429) 0 = Inr (garbled 429)" by (simp add: always_def)
  note T0 = rate_limited_attempt [where net = "always (garbled 429)" and tries = 0
      and st = client0 and sent = ping and prev = None and rest = "[1, 2, 3, 4]", OF s0 n0]
  have Z: "request_loop client0 ping (always (garbled 429)) None [0, 1, 2, 3, 4]
     = (Raises JSONDecodeError, client0\<lparr>trace := [ping]\<rparr>)"
    using T0 [THEN conjunct2, THEN conjunct1, rule_format, OF j0]
    by (simp add: client0_def)
  have s1: "status blocked_429 = 429" by (simp add: blocked_429_def)
  have j1: "json_or_text blocked_429 = Inr (PStr ''error code: 1015'')"
    by (simp add: json_or_text_def blocked_429_def)
  have n1: "always blocked_429 0 = Inr blocked_429" by (simp add: always_def)
  have v1: "map_of (headers blocked_429) ''Via'' = None \<or> map_of (headers blocked_429) ''Via'' = Some []
             \<or> is_str (PStr ''error code: 1015'')"
    by simp
  note T1 = rate_limited_attempt [where net = "always blocked_429" and tries = 0
      and st = client0 and sent = ping and prev = None and rest = "[1, 2, 3, 4]", OF s1 n1]
  have A: "request_loop client0 ping (always blocked_429) None [0, 1, 2, 3, 4]
     = (Raises (HTTPException blocked_429 (PStr ''error code: 1015'')), client0\<lparr>trace := [ping]\<rparr>)"
    using T1 [THEN conjunct2, THEN conjunct2, rule_format, OF j1, THEN conjunct1] v1
    by (simp add: client0_def)
  have s2: "status global_429 = 429" by (simp add: global_429_def)
  have j2: "json_or_text global_429
      = Inr (PDict [(''retry_after'', PNum (1 / 100)), (''global'', PBool True)])"
    by (simp add: json_or_text_def global_429_def)
  have n2: "always global_429 4 = Inr global_429" by (simp add: always_def)
  have v2: "map_of (headers global_429) ''Via'' = Some ''1.1 proxy'' \<and> ''1.1 proxy'' \<noteq> []
      \<and> PDict [(''retry_after'', PNum (1 / 100)), (''global'', PBool True)]
          = PDict [(''retry_after'', PNum (1 / 100)), (''global'', PBool True)]
      \<and> map_of [(''retry_after'', PNum (1 / 100)), (''global'', PBool True)] ''retry_after''
          = Some (PNum (1 / 100))
      \<and> (map_of [(''retry_after'', PNum (1 / 100)), (''global'', PBool True)] ''global'' = None \<and> \<not> True
         \<or> map_of [(''retry_after'', PNum (1 / 100)), (''global'', PBool True)] ''global''
             = Some (PBool True))"
    by (simp add: global_429_def)
  note T2 = rate_limited_attempt [where net = "always global_429" and tries = 4
      and st = client0 and sent = ping and prev = None and rest = "[]", OF s2 n2]
  have "request_loop client0 ping (always global_429) None [4]
     = request_loop
         (if True
          then client0\<lparr>global_over := True,
                  trace := trace client0 @ [ping, GateClear, Sleep (1 / 100), GateSet]\<rparr>
          else client0\<lparr>trace := trace client0 @ [ping, Sleep (1 / 100)]\<rparr>)
         ping (always global_429)
         (Some (global_429, PDict [(''retry_after'', PNum (1 / 100)), (''global'', PBool True)])) []"
    using T2 [THEN conjunct2, THEN conjunct2, rule_format, OF j2, THEN conjunct2] v2 by blast
  then have B: "request_loop client0 ping (always global_429) None [4]
     = (Raises (HTTPException global_429
                 (PDict [(''retry_after'', PNum (1 / 100)), (''global'', PBool True)])),
        client0\<lparr>trace := [ping, GateClear, Sleep (1 / 100), GateSet]\<rparr>)"
    by (simp add: s2 client0_def)
  from Z A B show ?thesis by simp
qed

text \<open>
  Claim C1 as stated retries whenever the header is there and the body is JSON. A 429
  with the header \<open>Via\<close> present but empty and a JSON object as body raises
  \<open>HTTPException\<close> without a sleep.
\<close>

theorem empty_via_counterexample:
  "map_of (headers empty_via_429) ''Via'' = Some []
   \<and> json_or_text empty_via_429 = Inr (PDict [(''retry_after'', PNum 1)])
   \<and> \<not> is_str (PDict [(''retry_after'', PNum 1)])
   \<and> request client0 root_route None None (always empty_via_429)
     = (Raises (HTTPException empty_via_429 (PDict [(''retry_after'', PNum 1)])),
        client0\<lparr>trace := [Acquire ''None:None:/'', ping, Release ''None:None:/'']\<rparr>)"
  by (simp add: request_def Let_def upt_0_5 request_attempt_def json_or_text_def emit_def
      client0_def root_route_def empty_via_429_def always_def bucket_def str_of_def ping_def)

subsection \<open>upload\_file\<close>

lemma upload_file_decoded:
  assumes "getitem (api_info st) ''features'' = Inr features"
    and "getitem features ''autumn'' = Inr autumn"
    and "getitem autumn ''url'' = Inr base"
    and "json_or_text response = Inr data"
    and "status response \<noteq> 600"
  shows "upload_file st f tag (Inr response) =
           (if status response = 400 then Raises (HTTPException response data)
            else if 500 \<le> status response \<and> status response \<le> 599
            then Raises (RevoltServerError response data)
            else Returns data,
            st\<lparr>trace := trace st @
               [Post base tag [(''User-Agent'', user_agent st)]
                  (FormBody [PDict [(''name'', PStr ''file''), (''value'', PStr (fp f)),
                                    (''filename'', PStr (filename f))]])]\<rparr>)
       \<and> (map_of (headers response) ''content-type'' = Some ''application/json''
            \<longrightarrow> loads response = Some data)
       \<and> (map_of (headers response) ''content-type'' \<noteq> Some ''application/json''
            \<longrightarrow> data = PStr (text_of response))"
proof -
  have "upload_file st f tag (Inr response) =
           (if status response = 400 then Raises (HTTPException response data)
            else if 500 \<le> status response \<and> status response \<le> 599
            then Raises (RevoltServerError response data)
            else Returns data,
            st\<lparr>trace := trace st @
               [Post base tag [(''User-Agent'', user_agent st)]
                  (FormBody [PDict [(''name'', PStr ''file''), (''value'', PStr (fp f)),
                                    (''filename'', PStr (filename f))]])]\<rparr>)"
    using assms by (simp add: upload_file_def Let_def emit_def)
  moreover have "map_of (headers response) ''content-type'' = Some ''application/json''
            \<longrightarrow> loads response = Some data"
    using assms(4) by (auto simp: json_or_text_def split: option.splits)
  moreover have "map_of (headers response) ''content-type'' \<noteq> Some ''application/json''
            \<longrightarrow> data = PStr (text_of response)"
    using assms(4) by (auto simp: json_or_text_def split: option.splits if_splits)
  ultimately show ?thesis by blast
qed

text \<open>
  Claim C9, amended. Where \<^verbatim>\<open>api_info\<close> names the file host, an upload answered with
  a body that is announced as \<open>application/json\<close> and does not parse raises the
  decoding error. Otherwise the body decodes, and an answer with status 400 raises
  \<open>HTTPException\<close>, with a status from 500 to 599 raises \<open>RevoltServerError\<close>, and
  with any status other than these and 600 returns the decoded body: the JSON value
  when the content type is exactly \<open>application/json\<close>, the raw text otherwise. In
  each case the call adds one post to the effects of the client and nothing else: no
  lock, no gate, no sleep, no second exchange.
\<close>

theorem upload_file_status:
  assumes "getitem (api_info st) ''features'' = Inr features"
    and "getitem features ''autumn'' = Inr autumn"
    and "getitem autumn ''url'' = Inr base"
    and "status response \<noteq> 600"
  shows "((\<exists>e. json_or_text response = Inl e) \<longleftrightarrow>
            map_of (headers response) ''content-type'' = Some ''application/json''
            \<and> loads response = None)
       \<and> (\<forall>e. json_or_text response = Inl e
            \<longrightarrow> e = JSONDecodeError
              \<and> upload_file st f tag (Inr response) =
                  (Raises e,
                   st\<lparr>trace := trace st @
                     [Post base tag [(''User-Agent'', user_agent st)]
                        (FormBody [PDict [(''name'', PStr ''file''), (''value'', PStr (fp f)),
                                          (''filename'', PStr (filename f))]])]\<rparr>))
       \<and> (\<forall>data. json_or_text response = Inr data
            \<longrightarrow> upload_file st f tag (Inr response) =
                  (if status response = 400 then Raises (HTTPException response data)
                   else if 500 \<le> status response \<and> status response \<le> 599
                   then Raises (RevoltServerError response data)
                   else Returns data,
                   st\<lparr>trace := trace st @
                     [Post base tag [(''User-Agent'', user_agent st)]
                        (FormBody [PDict [(''name'', PStr ''file''), (''value'', PStr (fp f)),
                                          (''filename'', PStr (filename f))]])]\<rparr>)
              \<and> (map_of (headers response) ''content-type'' = Some ''application/json''
                   \<longrightarrow> loads response = Some data)
              \<and> (map_of (headers response) ''content-type'' \<noteq> Some ''application/json''
                   \<longrightarrow> data = PStr (text_of response)))"
proof (intro conjI allI impI)
  show "(\<exists>e. json_or_text response = Inl e) \<longleftrightarrow>
            map_of (headers response) ''content-type'' = Some ''application/json''
            \<and> loads response = None"
    by (rule json_or_text_fails)
next
  fix e
  assume e: "json_or_text response = Inl e"
  show "e = JSONDecodeError" using e by (rule json_or_text_error)
  show "upload_file st f tag (Inr response) =
                  (Raises e,
                   st\<lparr>trace := trace st @
                     [Post base tag [(''User-Agent'', user_agent st)]
                        (FormBody [PDict [(''name'', PStr ''file''), (''value'', PStr (fp f)),
                                          (''filename'', PStr (filename f))]])]\<rparr>)"
    using assms(1-3) e by (simp add: upload_file_def Let_def emit_def)
next
  fix data
  assume d: "json_or_text response = Inr data"
  note D = upload_file_decoded [OF assms(1-3) d assms(4), of f tag]
  show "upload_file st f tag (Inr response) =
                  (if status response = 400 then Raises (HTTPException response data)
                   else if 500 \<le> status response \<and> status response \<le> 599
                   then Raises (RevoltServerError response data)
                   else Returns data,
                   st\<lparr>trace := trace st @
                     [Post base tag [(''User-Agent'', user_agent st)]
                        (FormBody [PDict [(''name'', PStr ''file''), (''value'', PStr (fp f)),
                                          (''filename'', PStr (filename f))]])]\<rparr>)"
    using D by (rule conjunct1)
  show "loads response = Some data"
    if "map_of (headers response) ''content-type'' = Some ''application/json''"
    using D that by blast
  show "data = PStr (text_of response)"
    if "map_of (headers response) ''content-type'' \<noteq> Some ''application/json''"
    using D that by blast
qed

theorem upload_file_status_witness:
  "getitem (api_info client1) ''features''
     = Inr (PDict [(''autumn'', PDict [(''url'', PStr ''https://autumn.revolt.chat'')])])
   \<and> json_or_text (ok_json (PDict [(''id'', PStr ''a1'')])) = Inr (PDict [(''id'', PStr ''a1'')])
   \<and> status (ok_json (PDict [(''id'', PStr ''a1'')])) \<noteq> 600
   \<and> upload_file client1 picture ''attachments'' (Inr (ok_json (PDict [(''id'', PStr ''a1'')])))
     = (Returns (PDict [(''id'', PStr ''a1'')]),
        client1\<lparr>trace :=
          [Post (PStr ''https://autumn.revolt.chat'') ''attachments'' [(''User-Agent'', ''Pyvolt'')]
             (FormBody [PDict [(''name'', PStr ''file''), (''value'', PStr ''PNG''),
                               (''filename'', PStr ''cat.png'')]])]\<rparr>)
   \<and> json_or_text (garbled 400) = Inl JSONDecodeError
   \<and> status (garbled 400) \<noteq> 600
   \<and> upload_file client1 picture ''attachments'' (Inr (garbled 400))
     = (Raises JSONDecodeError,
        client1\<lparr>trace :=
          [Post (PStr ''https://autumn.revolt.chat'') ''attachments'' [(''User-Agent'', ''Pyvolt'')]
             (FormBody [PDict [(''name'', PStr ''file''), (''value'', PStr ''PNG''),
                               (''filename'', PStr ''cat.png'')]])]\<rparr>)"
proof -
  have a: "getitem (api_info client1) ''features''
     = Inr (PDict [(''autumn'', PDict [(''url'', PStr ''https://autumn.revolt.chat'')])])"
    by (simp add: client1_def autumn_info_def)
  have b: "getitem (PDict [(''autumn'', PDict [(''url'', PStr ''https://autumn.revolt.chat'')])]) ''autumn''
     = Inr (PDict [(''url'', PStr ''https://autumn.revolt.chat'')])"
    by simp
  have c: "getitem (PDict [(''url'', PStr ''https://autumn.revolt.chat'')]) ''url''
     = Inr (PStr ''https://autumn.revolt.chat'')"
    by simp
  have d: "json_or_text (ok_json (PDict [(''id'', PStr ''a1'')])) = Inr (PDict [(''id'', PStr ''a1'')])"
    by (simp add: json_or_text_def ok_json_def)
  have e: "status (ok_json (PDict [(''id'', PStr ''a1'')])) \<noteq> 600"
    by (simp add: ok_json_def)
  have s: "status (ok_json (PDict [(''id'', PStr ''a1'')])) = 200"
    by (simp add: ok_json_def)
  have u: "user_agent client1 = ''Pyvolt''" "trace client1 = []"
    by (simp_all add: client1_def)
  have p: "fp picture = ''PNG''" "filename picture = ''cat.png''"
    by (simp_all add: picture_def)
  have g: "json_or_text (garbled 400) = Inl JSONDecodeError"
    by (simp add: json_or_text_def garbled_def)
  have h: "status (garbled 400) \<noteq> 600"
    by (simp add: garbled_def)
  have A: "upload_file client1 picture ''attachments'' (Inr (ok_json (PDict [(''id'', PStr ''a1'')])))
     = (Returns (PDict [(''id'', PStr ''a1'')]),
        client1\<lparr>trace :=
          [Post (PStr ''https://autumn.revolt.chat'') ''attachments'' [(''User-Agent'', ''Pyvolt'')]
             (FormBody [PDict [(''name'', PStr ''file''), (''value'', PStr ''PNG''),
                               (''filename'', PStr ''cat.png'')]])]\<rparr>)"
    using upload_file_status [OF a b c e, of picture "''attachments''",
        THEN conjunct2, THEN conjunct2, rule_format, OF d, THEN conjunct1]
    by (simp add: s u p)
  have B: "upload_file client1 picture ''attachments'' (Inr (garbled 400))
     = (Raises JSONDecodeError,
        client1\<lparr>trace :=
          [Post (PStr ''https://autumn.revolt.chat'') ''attachments'' [(''User-Agent'', ''Pyvolt'')]
             (FormBody [PDict [(''name'', PStr ''file''), (''value'', PStr ''PNG''),
                               (''filename'', PStr ''cat.png'')]])]\<rparr>)"
    using upload_file_status [OF a b c h, of picture "''attachments''",
        THEN conjunct2, THEN conjunct1, rule_format, OF g, THEN conjunct2]
    by (simp add: u p)
  from a d e A g h B show ?thesis by simp
qed

text \<open>
  Claim C9 as stated returns the decoded JSON body for every other status. A 200
  without a content type, whose text is the JSON document \<open>{}\<close>, returns the text.
\<close>

theorem upload_file_text_counterexample:
  "status ok_untyped = 200
   \<and> loads ok_untyped = Some (PDict [])
   \<and> fst (upload_file client1 picture ''attachments'' (Inr ok_untyped)) = Returns (PStr ''{}'')
   \<and> PStr ''{}'' \<noteq> PDict []"
  by (simp add: upload_file_def Let_def emit_def client1_def autumn_info_def ok_untyped_def
      json_or_text_def)

subsection \<open>static\_login\<close>

lemma request_attempt_keeps:
  "request_attempt st sent tries prev outcome = (s, st', prev') \<Longrightarrow>
     token st' = token st \<and> api_info st' = api_info st \<and> user_agent st' = user_agent st"
  by (auto simp: request_attempt_def Let_def emit_def gate_clear_def gate_set_def asyncio_sleep_def
      split: sum.splits error.splits if_splits option.splits)

lemma request_loop_keeps:
  "request_loop st sent net prev ts = (res, st') \<Longrightarrow>
     token st' = token st \<and> api_info st' = api_info st \<and> user_agent st' = user_agent st"
proof (induction ts arbitrary: st prev)
  case Nil
  then show ?case by (auto split: option.splits if_splits)
next
  case (Cons t ts)
  obtain s st1 prev1 where a: "request_attempt st sent t prev (net t) = (s, st1, prev1)"
    by (metis prod_cases3)
  have k: "token st1 = token st \<and> api_info st1 = api_info st \<and> user_agent st1 = user_agent st"
    using a by (rule request_attempt_keeps)
  show ?case
  proof (cases s)
    case (Return d)
    then show ?thesis using Cons.prems a k by auto
  next
    case (Raise e)
    then show ?thesis using Cons.prems a k by auto
  next
    case Continue
    then have "request_loop st1 sent net prev1 ts = (res, st')"
      using Cons.prems a by simp
    then show ?thesis using Cons.IH k by metis
  qed
qed

lemma request_keeps:
  "request st r form json net = (res, st') \<Longrightarrow>
     token st' = token st \<and> api_info st' = api_info st \<and> user_agent st' = user_agent st"
proof -
  assume a: "request st r form json net = (res, st')"
  show ?thesis
  proof (cases "(case json of Some j \<Rightarrow> \<not> serializable j | None \<Rightarrow> False) \<or> \<not> global_over st")
    case True
    then show ?thesis using a by (auto simp: request_def Let_def split: if_splits)
  next
    case False
    then obtain sent res1 st1 where
      l: "request_loop (emit (Acquire (bucket r)) st) sent net None [0..<5] = (res1, st1)"
      and s: "st' = emit (Release (bucket r)) st1"
      using a by (auto simp: request_def Let_def split: prod.splits if_splits)
    from request_loop_keeps [OF l] s show ?thesis by (simp add: emit_def)
  qed
qed

lemma Route_users_me: "Route fm uq ''GET'' ''/users/@me'' [] = Inr users_me"
  by (simp add: Route_def users_me_def BASE_def)

lemma get_api_info_keeps:
  "get_api_info st fm uq net = (res, st') \<Longrightarrow> token st' = token st"
  by (auto simp: get_api_info_def Route_def dest: request_keeps)

text \<open>
  Claim C3, amended. When the service metadata was fetched and the request that
  validates the credential raises: if the exception is an \<open>HTTPException\<close> (of any
  status, its subclasses included), the credential held before the call is put back,
  and the login raises \<open>LoginFailure\<close> with that exception as cause when the status
  is 401, the exception itself otherwise; if it is any other exception, it propagates
  and the attempted credential stays installed.
\<close>

theorem static_login_failure:
  assumes "get_api_info st fm uq net_info = (Returns info, st1)"
    and "request (st1\<lparr>api_info := info, token := Some tok\<rparr>) users_me None None net_me
           = (Raises exc, st3)"
  shows "static_login st fm uq tok net_info net_me =
           (case exc_status exc of
              Some s \<Rightarrow>
                (if s = 401 then Raises (LoginFailure ''Improper token has been passed.'' exc)
                 else Raises exc,
                 st3\<lparr>token := token st\<rparr>)
            | None \<Rightarrow> (Raises exc, st3))
       \<and> token st3 = Some tok"
proof -
  have old: "token st1 = token st"
    using assms(1) by (rule get_api_info_keeps)
  have tok: "token st3 = Some tok"
    using request_keeps [OF assms(2)] by simp
  have "static_login st fm uq tok net_info net_me =
           (case exc_status exc of
              Some s \<Rightarrow>
                (if s = 401 then Raises (LoginFailure ''Improper token has been passed.'' exc)
                 else Raises exc,
                 st3\<lparr>token := token st\<rparr>)
            | None \<Rightarrow> (Raises exc, st3))"
    using assms old
    by (simp add: static_login_def Let_def Route_users_me split: option.splits)
  with tok show ?thesis by simp
qed

lemma get_api_info_client_old:
  "get_api_info client_old (answer []) id (always (ok_json (PDict [])))
     = (Returns (PDict []), client_old\<lparr>trace := take 3 login_trace\<rparr>)"
  by (simp add: get_api_info_def Route_def BASE_def request_def Let_def upt_0_5
      request_attempt_def json_or_text_def emit_def client_old_def ok_json_def always_def
      bucket_def str_of_def old_token_def login_trace_def)

lemma request_users_me_unauthorized:
  "request (client_old\<lparr>trace := take 3 login_trace\<rparr>\<lparr>api_info := PDict [], token := Some new_token\<rparr>)
      users_me None None (always unauthorized)
    = (Raises (HTTPException unauthorized (PStr ''Unauthorized'')),
       client_old\<lparr>token := Some new_token, api_info := PDict [], trace := login_trace\<rparr>)"
  by (simp add: request_def Let_def upt_0_5 request_attempt_def emit_def json_or_text_def
      client_old_def users_me_def always_def bucket_def str_of_def new_token_def login_trace_def
      unauthorized_def)

lemma request_users_me_bad_request:
  "request (client_old\<lparr>trace := take 3 login_trace\<rparr>\<lparr>api_info := PDict [], token := Some new_token\<rparr>)
      users_me None None (always bad_request)
    = (Raises (HTTPException bad_request (PStr ''Bad Request'')),
       client_old\<lparr>token := Some new_token, api_info := PDict [], trace := login_trace\<rparr>)"
  by (simp add: request_def Let_def upt_0_5 request_attempt_def emit_def json_or_text_def
      client_old_def users_me_def always_def bucket_def str_of_def new_token_def login_trace_def
      bad_request_def)

lemma request_users_me_refused:
  "request (client_old\<lparr>trace := take 3 login_trace\<rparr>\<lparr>api_info := PDict [], token := Some new_token\<rparr>)
      users_me None None (refuses None)
    = (Raises (OSError None),
       client_old\<lparr>token := Some new_token, api_info := PDict [], trace := login_trace\<rparr>)"
  by (simp add: request_def Let_def upt_0_5 request_attempt_def emit_def
      client_old_def users_me_def refuses_def bucket_def str_of_def new_token_def login_trace_def)

theorem static_login_failure_witness:
  "static_login client_old (answer []) id new_token (always (ok_json (PDict []))) (always unauthorized)
     = (Raises (LoginFailure ''Improper token has been passed.''
                 (HTTPException unauthorized (PStr ''Unauthorized''))),
        client_old\<lparr>api_info := PDict [], trace := login_trace\<rparr>)
   \<and> token (client_old\<lparr>api_info := PDict [], trace := login_trace\<rparr>) = Some old_token
   \<and> static_login client_old (answer []) id new_token (always (ok_json (PDict []))) (refuses None)
     = (Raises (OSError None),
        client_old\<lparr>token := Some new_token, api_info := PDict [], trace := login_trace\<rparr>)"
proof -
  have s: "status unauthorized = 401"
    by (simp add: unauthorized_def)
  from static_login_failure [OF get_api_info_client_old request_users_me_unauthorized]
  have "static_login client_old (answer []) id new_token (always (ok_json (PDict [])))
          (always unauthorized)
     = (Raises (LoginFailure ''Improper token has been passed.''
                 (HTTPException unauthorized (PStr ''Unauthorized''))),
        client_old\<lparr>token := Some new_token, api_info := PDict [], trace := login_trace\<rparr>
          \<lparr>token := token client_old\<rparr>)"
    by (simp add: s)
  then have unauth: "static_login client_old (answer []) id new_token
          (always (ok_json (PDict []))) (always unauthorized)
     = (Raises (LoginFailure ''Improper token has been passed.''
                 (HTTPException unauthorized (PStr ''Unauthorized''))),
        client_old\<lparr>api_info := PDict [], trace := login_trace\<rparr>)
   \<and> token (client_old\<lparr>api_info := PDict [], trace := login_trace\<rparr>) = Some old_token"
    by (simp add: client_old_def)
  have "static_login client_old (answer []) id new_token (always (ok_json (PDict []))) (refuses None)
     = (Raises (OSError None),
        client_old\<lparr>token := Some new_token, api_info := PDict [], trace := login_trace\<rparr>)"
    using static_login_failure [OF get_api_info_client_old request_users_me_refused] by simp
  with unauth show ?thesis by simp
qed

text \<open>
  Claim C3 as stated restores nothing on a failure other than 401. A login whose
  validation is answered with status 400 raises the \<open>HTTPException\<close> unchanged and
  leaves the old credential installed, not the attempted one.
\<close>

theorem static_login_restores_counterexample:
  "fst (static_login client_old (answer []) id new_token (always (ok_json (PDict [])))
          (always bad_request))
     = Raises (HTTPException bad_request (PStr ''Bad Request''))
   \<and> token (snd (static_login client_old (answer []) id new_token (always (ok_json (PDict [])))
          (always bad_request))) = Some old_token
   \<and> Some old_token \<noteq> Some new_token"
proof -
  have b: "request (client_old\<lparr>trace := take 3 login_trace\<rparr>\<lparr>api_info := PDict [], token := Some new_token\<rparr>)
      users_me None None (always bad_request)
    = (Raises (HTTPException bad_request (PStr ''Bad Request'')),
       client_old\<lparr>token := Some new_token, api_info := PDict [], trace := login_trace\<rparr>)"
    by (rule request_users_me_bad_request)
  have "static_login client_old (answer []) id new_token (always (ok_json (PDict [])))
          (always bad_request)
     = (Raises (HTTPException bad_request (PStr ''Bad Request'')),
        client_old\<lparr>api_info := PDict [], trace := login_trace\<rparr>)"
    using get_api_info_client_old b
    by (simp add: static_login_def Let_def Route_users_me bad_request_def client_old_def)
  then show ?thesis
    by (simp add: client_old_def old_token_def new_token_def)
qed

subsection \<open>send\_message\<close>

lemma upload_file_fst_cong:
  "api_info st1 = api_info st \<Longrightarrow>
     fst (upload_file st1 f tag outcome) = fst (upload_file st f tag outcome)"
  by (simp add: upload_file_def Let_def sum.case_distrib [of fst] if_distrib [of fst]
      cong: sum.case_cong if_cong)

lemma upload_file_snd: "api_info (snd (upload_file st f tag outcome)) = api_info st"
  by (simp add: upload_file_def Let_def emit_def split: sum.split)

lemma upload_file_api_info:
  "upload_file st f tag outcome = (res, st') \<Longrightarrow> api_info st' = api_info st"
  using upload_file_snd [of st f tag outcome] by simp

lemma upload_id_cong:
  assumes "api_info st1 = api_info st"
  shows "upload_id st1 f outcome = upload_id st f outcome"
  unfolding upload_id_def upload_file_fst_cong [OF assms] ..

lemma await_Returns:
  "await m k = (Returns y, st') \<Longrightarrow> \<exists>x st1. m = (Returns x, st1) \<and> k x st1 = (Returns y, st')"
  by (auto simp: await_def split: prod.splits result.splits)

lemma upload_each_ids:
  "upload_each st fs upnet i acc = (Returns ids, st') \<Longrightarrow>
     map Some ids = map Some acc @ map (\<lambda>(j, f). upload_id st f (upnet j)) (zip [i..<i + length fs] fs)
     \<and> api_info st' = api_info st"
proof (induction fs arbitrary: st i acc)
  case Nil
  then show ?case by simp
next
  case (Cons f fs)
  from Cons.prems obtain data st1 where
    u: "upload_file st f ''attachments'' (upnet i) = (Returns data, st1)"
    and k: "(case getitem data ''id'' of
               Inl e \<Rightarrow> (Raises e, st1)
             | Inr ident \<Rightarrow> upload_each st1 fs upnet (Suc i) (acc @ [ident])) = (Returns ids, st')"
    by (auto dest!: await_Returns)
  from k obtain ident where
    g: "getitem data ''id'' = Inr ident"
    and r: "upload_each st1 fs upnet (Suc i) (acc @ [ident]) = (Returns ids, st')"
    by (auto split: sum.splits)
  have a1: "api_info st1 = api_info st" using u by (rule upload_file_api_info)
  have id: "upload_id st f (upnet i) = Some ident"
    using u g by (simp add: upload_id_def)
  have ih: "map Some ids = map Some (acc @ [ident]) @
               map (\<lambda>(j, f). upload_id st1 f (upnet j)) (zip [Suc i..<Suc i + length fs] fs)"
    and a2: "api_info st' = api_info st1"
    using Cons.IH [OF r] by simp_all
  have z: "zip [i..<i + length (f # fs)] (f # fs) = (i, f) # zip [Suc i..<Suc i + length fs] fs"
    by (simp add: upt_conv_Cons del: upt_Suc)
  have c: "map (\<lambda>(j, f). upload_id st1 f (upnet j)) (zip [Suc i..<Suc i + length fs] fs)
         = map (\<lambda>(j, f). upload_id st f (upnet j)) (zip [Suc i..<Suc i + length fs] fs)"
    by (simp add: upload_id_cong [OF a1])
  show ?case
    unfolding z using ih c id a1 a2 by simp
qed

lemma map_of_content_embeds:
  "map_of (payload_content_embeds content embed' embeds) ''embeds''
     = (if truthy embeds then Some embeds else if truthy embed' then Some (PList [embed']) else None)"
  "map_of (payload_content_embeds content embed' embeds) ''attachments'' = None"
  "map_of (payload_content_embeds content embed' embeds) ''replies'' = None"
  by (simp_all add: payload_content_embeds_def Let_def update_conv')

lemma map_of_replies_masquerade:
  "map_of (payload_replies_masquerade p replie replies masquerade) ''replies''
     = (if truthy replies then Some replies else if truthy replie then Some (PList [replie])
        else map_of p ''replies'')"
  "map_of (payload_replies_masquerade p replie replies masquerade) ''embeds'' = map_of p ''embeds''"
  "map_of (payload_replies_masquerade p replie replies masquerade) ''attachments''
     = map_of p ''attachments''"
  by (simp_all add: payload_replies_masquerade_def Let_def update_conv')

lemma payload_attachment_Returns:
  assumes "payload_attachment st p attachment upnet = (Returns p1, st1)"
  shows "api_info st1 = api_info st"
    and "map_of p1 ''embeds'' = map_of p ''embeds''"
    and "map_of p1 ''replies'' = map_of p ''replies''"
    and "attachment = None \<Longrightarrow> map_of p1 ''attachments'' = map_of p ''attachments''"
    and "attachment = Some f \<Longrightarrow>
           \<exists>ident. upload_id st f (upnet 0) = Some ident
             \<and> map_of p1 ''attachments'' = Some (PList [ident])"
proof -
  show "attachment = None \<Longrightarrow> map_of p1 ''attachments'' = map_of p ''attachments''"
    using assms by (simp add: payload_attachment_def)
  have *: "api_info st1 = api_info st \<and> map_of p1 ''embeds'' = map_of p ''embeds''
      \<and> map_of p1 ''replies'' = map_of p ''replies''
      \<and> (\<forall>f. attachment = Some f \<longrightarrow>
           (\<exists>ident. upload_id st f (upnet 0) = Some ident
             \<and> map_of p1 ''attachments'' = Some (PList [ident])))"
  proof (cases attachment)
    case None
    then show ?thesis using assms by (simp add: payload_attachment_def)
  next
    case (Some g)
    with assms obtain data where
      u: "upload_file st g ''attachments'' (upnet 0) = (Returns data, st1)"
      and k: "(case getitem data ''id'' of
                 Inl e \<Rightarrow> (Raises e, st1)
               | Inr ident \<Rightarrow> (Returns (AList.update ''attachments'' (PList [ident]) p), st1))
              = (Returns p1, st1)"
      by (auto simp: payload_attachment_def dest!: await_Returns split: sum.splits)
    from k obtain ident where g: "getitem data ''id'' = Inr ident"
      and p1: "p1 = AList.update ''attachments'' (PList [ident]) p"
      by (auto split: sum.splits)
    have "upload_id st g (upnet 0) = Some ident"
      using u g by (simp add: upload_id_def)
    then show ?thesis
      using Some p1 upload_file_api_info [OF u] by (simp add: update_conv')
  qed
  then show "api_info st1 = api_info st" "map_of p1 ''embeds'' = map_of p ''embeds''"
    "map_of p1 ''replies'' = map_of p ''replies''"
    "attachment = Some f \<Longrightarrow>
           \<exists>ident. upload_id st f (upnet 0) = Some ident
             \<and> map_of p1 ''attachments'' = Some (PList [ident])"
    by simp_all
qed

lemma payload_attachments_Returns:
  assumes "payload_attachments st p attachment attachments upnet = (Returns p2, st2)"
  shows "map_of p2 ''embeds'' = map_of p ''embeds''"
    and "map_of p2 ''replies'' = map_of p ''replies''"
    and "attachments = None \<or> attachments = Some [] \<Longrightarrow>
           map_of p2 ''attachments'' = map_of p ''attachments''"
    and "attachments = Some (f # fs) \<Longrightarrow>
           \<exists>ids. map_of p2 ''attachments'' = Some (PList ids)
             \<and> map Some ids =
                 map (\<lambda>(j, f). upload_id st f (upnet j))
                   (zip [(case attachment of None \<Rightarrow> 0 | Some f' \<Rightarrow> 1)..<
                         (case attachment of None \<Rightarrow> 0 | Some f' \<Rightarrow> 1) + length (f # fs)] (f # fs))"
proof -
  show "attachments = None \<or> attachments = Some [] \<Longrightarrow>
           map_of p2 ''attachments'' = map_of p ''attachments''"
    using assms by (auto simp: payload_attachments_def)
  have *: "map_of p2 ''embeds'' = map_of p ''embeds'' \<and> map_of p2 ''replies'' = map_of p ''replies''
     \<and> (\<forall>f fs. attachments = Some (f # fs) \<longrightarrow>
           (\<exists>ids. map_of p2 ''attachments'' = Some (PList ids)
             \<and> map Some ids =
                 map (\<lambda>(j, f). upload_id st f (upnet j))
                   (zip [(case attachment of None \<Rightarrow> 0 | Some f' \<Rightarrow> 1)..<
                         (case attachment of None \<Rightarrow> 0 | Some f' \<Rightarrow> 1) + length (f # fs)] (f # fs))))"
  proof (cases "\<exists>g gs. attachments = Some (g # gs)")
    case False
    then have "p2 = p"
      using assms by (auto simp: payload_attachments_def split: option.splits list.splits)
    with False show ?thesis by simp
  next
    case True
    then obtain g gs where a: "attachments = Some (g # gs)" by blast
    with assms have "await (upload_each st (g # gs) upnet
                              (case attachment of None \<Rightarrow> 0 | Some f' \<Rightarrow> 1) [])
            (\<lambda>attachment_ids st1.
               (Returns (AList.update ''attachments'' (PList attachment_ids) p), st1))
          = (Returns p2, st2)"
      by (simp add: payload_attachments_def del: upload_each.simps)
    from await_Returns [OF this] obtain ids where
      e: "upload_each st (g # gs) upnet (case attachment of None \<Rightarrow> 0 | Some f' \<Rightarrow> 1) []
            = (Returns ids, st2)"
      and p2: "p2 = AList.update ''attachments'' (PList ids) p"
      by auto
    from upload_each_ids [OF e] p2 a show ?thesis
      by (simp add: update_conv' del: upt_Suc)
  qed
  then show "map_of p2 ''embeds'' = map_of p ''embeds''" "map_of p2 ''replies'' = map_of p ''replies''"
    "attachments = Some (f # fs) \<Longrightarrow>
           \<exists>ids. map_of p2 ''attachments'' = Some (PList ids)
             \<and> map Some ids =
                 map (\<lambda>(j, f). upload_id st f (upnet j))
                   (zip [(case attachment of None \<Rightarrow> 0 | Some f' \<Rightarrow> 1)..<
                         (case attachment of None \<Rightarrow> 0 | Some f' \<Rightarrow> 1) + length (f # fs)] (f # fs))"
    by simp_all
qed

text \<open>
  Claim C5, amended. In the payload \<^verbatim>\<open>send_message\<close> passes on: a truthy
  \<^verbatim>\<open>embeds\<close> is under \<open>embeds\<close> as given, whether \<^verbatim>\<open>embed\<close> was given or not,
  and a truthy \<^verbatim>\<open>embed\<close> alone is wrapped in a one-element list; the same holds for
  \<^verbatim>\<open>replies\<close> and \<^verbatim>\<open>replie\<close>. A non-empty \<^verbatim>\<open>attachments\<close> puts under
  \<open>attachments\<close> the ids of its own uploads, in order (they follow the upload of
  \<^verbatim>\<open>attachment\<close> if that was given too); \<^verbatim>\<open>attachment\<close> alone puts the one-element
  list of the id of its upload.
\<close>

theorem send_message_plural_wins:
  assumes "send_message_payload st content embed' embeds attachment attachments replie replies
             masquerade upnet = (Returns payload, st')"
  shows "(\<forall>format_map uriquote channel net r.
            Route format_map uriquote ''POST'' ''/channels/{channel_id}/messages''
              [(''channel_id'', channel)] = Inr r
            \<longrightarrow> send_message st format_map uriquote channel content embed' embeds attachment
                  attachments replie replies masquerade upnet net
                = request st' r None (Some (PDict payload)) net)
       \<and> (truthy embeds \<longrightarrow> map_of payload ''embeds'' = Some embeds)
       \<and> (\<not> truthy embeds \<and> truthy embed' \<longrightarrow> map_of payload ''embeds'' = Some (PList [embed']))
       \<and> (truthy replies \<longrightarrow> map_of payload ''replies'' = Some replies)
       \<and> (\<not> truthy replies \<and> truthy replie \<longrightarrow> map_of payload ''replies'' = Some (PList [replie]))
       \<and> (\<forall>f fs. attachments = Some (f # fs) \<longrightarrow>
            (\<exists>ids. map_of payload ''attachments'' = Some (PList ids)
               \<and> map Some ids =
                   map (\<lambda>(j, f). upload_id st f (upnet j))
                     (zip [(case attachment of None \<Rightarrow> 0 | Some f' \<Rightarrow> 1)..<
                           (case attachment of None \<Rightarrow> 0 | Some f' \<Rightarrow> 1) + length (f # fs)]
                        (f # fs))))
       \<and> (\<forall>f. attachment = Some f \<and> (attachments = None \<or> attachments = Some []) \<longrightarrow>
            (\<exists>ident. upload_id st f (upnet 0) = Some ident
               \<and> map_of payload ''attachments'' = Some (PList [ident])))"
proof -
  from assms obtain p1 st1 p2 where
    s1: "payload_attachment st (payload_content_embeds content embed' embeds) attachment upnet
           = (Returns p1, st1)"
    and s2: "payload_attachments st1 p1 attachment attachments upnet = (Returns p2, st')"
    and p: "payload = payload_replies_masquerade p2 replie replies masquerade"
    by (auto simp: send_message_payload_def dest!: await_Returns)
  note a1 = payload_attachment_Returns [OF s1]
  note a2 = payload_attachments_Returns [OF s2]
  have emb: "map_of payload ''embeds''
     = (if truthy embeds then Some embeds else if truthy embed' then Some (PList [embed']) else None)"
    using p a1(2) a2(1) by (simp add: map_of_replies_masquerade map_of_content_embeds)
  have rep: "map_of payload ''replies''
     = (if truthy replies then Some replies else if truthy replie then Some (PList [replie])
        else None)"
    using p a1(3) a2(2) by (simp add: map_of_replies_masquerade map_of_content_embeds)
  have att: "map_of payload ''attachments'' = map_of p2 ''attachments''"
    using p by (simp add: map_of_replies_masquerade)
  have plural: "\<exists>ids. map_of payload ''attachments'' = Some (PList ids)
               \<and> map Some ids =
                   map (\<lambda>(j, f). upload_id st f (upnet j))
                     (zip [(case attachment of None \<Rightarrow> 0 | Some f' \<Rightarrow> 1)..<
                           (case attachment of None \<Rightarrow> 0 | Some f' \<Rightarrow> 1) + length (f # fs)]
                        (f # fs))"
    if "attachments = Some (f # fs)" for f fs
  proof -
    have "(\<lambda>(j, f). upload_id st1 f (upnet j)) = (\<lambda>(j, f). upload_id st f (upnet j))"
      by (simp add: upload_id_cong [OF a1(1)])
    with a2(4) [OF that] att show ?thesis by simp
  qed
  have single: "\<exists>ident. upload_id st f (upnet 0) = Some ident
               \<and> map_of payload ''attachments'' = Some (PList [ident])"
    if "attachment = Some f \<and> (attachments = None \<or> attachments = Some [])" for f
  proof -
    from that have "map_of p2 ''attachments'' = map_of p1 ''attachments''"
      using a2(3) by blast
    with a1(5) [of f] that att show ?thesis by simp
  qed
  have out: "send_message st format_map uriquote channel content embed' embeds attachment
                  attachments replie replies masquerade upnet net
                = request st' r None (Some (PDict payload)) net"
    if "Route format_map uriquote ''POST'' ''/channels/{channel_id}/messages''
              [(''channel_id'', channel)] = Inr r" for format_map uriquote channel net r
    using that assms by (simp add: send_message_def await_def)
  have rest: "(truthy embeds \<longrightarrow> map_of payload ''embeds'' = Some embeds)
       \<and> (\<not> truthy embeds \<and> truthy embed' \<longrightarrow> map_of payload ''embeds'' = Some (PList [embed']))
       \<and> (truthy replies \<longrightarrow> map_of payload ''replies'' = Some replies)
       \<and> (\<not> truthy replies \<and> truthy replie \<longrightarrow> map_of payload ''replies'' = Some (PList [replie]))
       \<and> (\<forall>f fs. attachments = Some (f # fs) \<longrightarrow>
            (\<exists>ids. map_of payload ''attachments'' = Some (PList ids)
               \<and> map Some ids =
                   map (\<lambda>(j, f). upload_id st f (upnet j))
                     (zip [(case attachment of None \<Rightarrow> 0 | Some f' \<Rightarrow> 1)..<
                           (case attachment of None \<Rightarrow> 0 | Some f' \<Rightarrow> 1) + length (f # fs)]
                        (f # fs))))
       \<and> (\<forall>f. attachment = Some f \<and> (attachments = None \<or> attachments = Some []) \<longrightarrow>
            (\<exists>ident. upload_id st f (upnet 0) = Some ident
               \<and> map_of payload ''attachments'' = Some (PList [ident])))"
    using emb rep plural single by simp
  have "\<forall>format_map uriquote channel net r.
            Route format_map uriquote ''POST'' ''/channels/{channel_id}/messages''
              [(''channel_id'', channel)] = Inr r
            \<longrightarrow> send_message st format_map uriquote channel content embed' embeds attachment
                  attachments replie replies masquerade upnet net
                = request st' r None (Some (PDict payload)) net"
    using out by (intro allI impI)
  then show ?thesis using rest by (rule conjI)
qed

lemma both_forms:
  "fst (send_message_payload client1 (PStr ''hi'') embed1 (PList [embed2]) (Some picture)
          (Some [drawing]) reply1 (PList [reply2]) PNone uploads)
     = Returns [(''content'', PStr ''hi''), (''embeds'', PList [embed2]),
                (''attachments'', PList [PStr ''a2'']), (''replies'', PList [reply2])]"
  by (simp add: send_message_payload_def payload_content_embeds_def payload_attachment_def
      payload_attachments_def payload_replies_masquerade_def await_def Let_def
      upload_file_def emit_def client1_def autumn_info_def uploads_def ok_json_def
      json_or_text_def embed1_def embed2_def reply1_def reply2_def)

lemma singular_forms:
  "fst (send_message_payload client1 (PStr ''hi'') embed1 PNone (Some picture)
          None reply1 PNone PNone uploads)
     = Returns [(''content'', PStr ''hi''), (''embeds'', PList [embed1]),
                (''attachments'', PList [PStr ''a1'']), (''replies'', PList [reply1])]"
  by (simp add: send_message_payload_def payload_content_embeds_def payload_attachment_def
      payload_attachments_def payload_replies_masquerade_def await_def Let_def
      upload_file_def emit_def client1_def autumn_info_def uploads_def ok_json_def
      json_or_text_def embed1_def reply1_def)

theorem send_message_plural_wins_witness:
  "(\<exists>st1. send_message client1 (answer ''https://api.revolt.chat/channels/c1/messages'') id ''c1''
             (PStr ''hi'') embed1 (PList [embed2]) (Some picture) (Some [drawing]) reply1
             (PList [reply2]) PNone uploads (always (ok_json PNone))
           = request st1 messages_route None
               (Some (PDict [(''content'', PStr ''hi''), (''embeds'', PList [embed2]),
                             (''attachments'', PList [PStr ''a2'']), (''replies'', PList [reply2])]))
               (always (ok_json PNone)))
   \<and> fst (send_message_payload client1 (PStr ''hi'') embed1 (PList [embed2]) (Some picture)
          (Some [drawing]) reply1 (PList [reply2]) PNone uploads)
     = Returns [(''content'', PStr ''hi''), (''embeds'', PList [embed2]),
                (''attachments'', PList [PStr ''a2'']), (''replies'', PList [reply2])]
   \<and> truthy (PList [embed2]) \<and> truthy (PList [reply2])
   \<and> map_of [(''content'', PStr ''hi''), (''embeds'', PList [embed2]),
              (''attachments'', PList [PStr ''a2'']), (''replies'', PList [reply2])] ''embeds''
       = Some (PList [embed2])
   \<and> (\<exists>ids. map_of [(''content'', PStr ''hi''), (''embeds'', PList [embed2]),
                     (''attachments'', PList [PStr ''a2'']), (''replies'', PList [reply2])]
                ''attachments'' = Some (PList ids)
          \<and> map Some ids = [upload_id client1 drawing (uploads 1)])
   \<and> fst (send_message_payload client1 (PStr ''hi'') embed1 PNone (Some picture)
          None reply1 PNone PNone uploads)
     = Returns [(''content'', PStr ''hi''), (''embeds'', PList [embed1]),
                (''attachments'', PList [PStr ''a1'']), (''replies'', PList [reply1])]
   \<and> \<not> truthy PNone \<and> truthy embed1 \<and> truthy reply1
   \<and> map_of [(''content'', PStr ''hi''), (''embeds'', PList [embed1]),
              (''attachments'', PList [PStr ''a1'']), (''replies'', PList [reply1])] ''replies''
       = Some (PList [reply1])
   \<and> (\<exists>ident. upload_id client1 picture (uploads 0) = Some ident
          \<and> map_of [(''content'', PStr ''hi''), (''embeds'', PList [embed1]),
                     (''attachments'', PList [PStr ''a1'']), (''replies'', PList [reply1])]
                ''attachments'' = Some (PList [ident]))"
proof -
  let ?both = "[(''content'', PStr ''hi''), (''embeds'', PList [embed2]),
                (''attachments'', PList [PStr ''a2'']), (''replies'', PList [reply2])]"
  let ?single = "[(''content'', PStr ''hi''), (''embeds'', PList [embed1]),
                (''attachments'', PList [PStr ''a1'']), (''replies'', PList [reply1])]"
  have t: "truthy (PList [embed2])" "truthy (PList [reply2])" "\<not> truthy PNone"
    "truthy embed1" "truthy reply1"
    by (simp_all add: embed1_def reply1_def)
  obtain st1 where b: "send_message_payload client1 (PStr ''hi'') embed1 (PList [embed2])
      (Some picture) (Some [drawing]) reply1 (PList [reply2]) PNone uploads = (Returns ?both, st1)"
    using both_forms by (metis prod.collapse)
  obtain st2 where s: "send_message_payload client1 (PStr ''hi'') embed1 PNone
      (Some picture) None reply1 PNone PNone uploads = (Returns ?single, st2)"
    using singular_forms by (metis prod.collapse)
  note B = send_message_plural_wins [OF b, THEN conjunct2]
  note S = send_message_plural_wins [OF s, THEN conjunct2]
  have B1: "map_of ?both ''embeds'' = Some (PList [embed2])"
    using B t by blast
  have "\<exists>ids. map_of ?both ''attachments'' = Some (PList ids)
          \<and> map Some ids =
              map (\<lambda>(j, f). upload_id client1 f (uploads j))
                (zip [(case Some picture of None \<Rightarrow> 0 | Some f' \<Rightarrow> 1)..<
                      (case Some picture of None \<Rightarrow> 0 | Some f' \<Rightarrow> 1) + length [drawing]]
                   [drawing])"
    using B by blast
  then have B2: "\<exists>ids. map_of ?both ''attachments'' = Some (PList ids)
          \<and> map Some ids = [upload_id client1 drawing (uploads 1)]"
    by (simp add: upt_rec)
  have S1: "map_of ?single ''replies'' = Some (PList [reply1])"
    using S t by blast
  have S2: "\<exists>ident. upload_id client1 picture (uploads 0) = Some ident
          \<and> map_of ?single ''attachments'' = Some (PList [ident])"
    using S by blast
  have r: "Route (answer ''https://api.revolt.chat/channels/c1/messages'') id ''POST''
             ''/channels/{channel_id}/messages'' [(''channel_id'', ''c1'')] = Inr messages_route"
    by (simp add: Route_def answer_def messages_route_def)
  have B0: "\<exists>st1. send_message client1 (answer ''https://api.revolt.chat/channels/c1/messages'') id ''c1''
             (PStr ''hi'') embed1 (PList [embed2]) (Some picture) (Some [drawing]) reply1
             (PList [reply2]) PNone uploads (always (ok_json PNone))
           = request st1 messages_route None (Some (PDict ?both)) (always (ok_json PNone))"
    by (rule exI [where x = st1])
      (rule send_message_plural_wins [OF b, THEN conjunct1, rule_format, OF r])
  show ?thesis
    using B0 both_forms t(1) t(2) B1 B2 singular_forms t(3) t(4) t(5) S1 S2
    by (intro conjI) assumption+
qed

text \<open>
  Claim C5 as stated has the plural form verbatim in the payload when both forms are
  supplied. With \<^verbatim>\<open>attachment\<close> and \<^verbatim>\<open>attachments\<close> both given, the payload
  holds the id the upload of the plural form gave, not its list of files.
\<close>

theorem attachments_not_verbatim_counterexample:
  "fst (send_message_payload client1 PNone PNone PNone (Some picture) (Some [drawing]) PNone PNone
          PNone uploads)
     = Returns [(''attachments'', PList [PStr ''a2''])]
   \<and> PList [PStr ''a2''] \<noteq> PList [PFile drawing]"
  by (simp add: send_message_payload_def payload_content_embeds_def payload_attachment_def
      payload_attachments_def payload_replies_masquerade_def await_def Let_def
      upload_file_def emit_def client1_def autumn_info_def uploads_def ok_json_def
      json_or_text_def)

end
